theory Spec2Isabelle
  imports Complex_Main "HOL-Library.List_Lexorder" "HOL-Library.Sublist" "HOL-Library.AList"
begin

unbundle bit_operations_syntax

section \<open>Python values\<close>

text \<open>
  A Python 3 \<open>str\<close> is a sequence of Unicode code points. Code points are natural
  numbers below \<open>0x110000\<close>; comparison of two strings is lexicographic on the code
  points, which is the order \<open>HOL-Library.List_Lexorder\<close> puts on \<open>nat list\<close>.
  \<open>ustr\<close> embeds an Isabelle literal.
\<close>

type_synonym str = "nat list"

definition ustr :: "string \<Rightarrow> str" where
  "ustr s = map of_char s"

text \<open>
  The decoded body of a response (\<open>r.json()\<close>) and every other dynamically typed value
  the client stores. \<open>JNull\<close> is \<open>None\<close>; a dict is an association list in insertion
  order. Numbers with a fraction or an exponent (Python floats) are not part of the
  model.
\<close>

datatype json =
    JNull
  | JBool bool
  | JInt int
  | JStr str
  | JArr "json list"
  | JObj "(str \<times> json) list"

text \<open>
  The exceptions the modelled code can raise. \<open>AccessTokenInvalid\<close> and
  \<open>ClientException\<close> are raised with the single argument
  \<open>"{}: {}".format(json["errcode"], json["errmsg"])\<close>; the model keeps the two
  formatted values. \<open>ReadTimeout\<close>, \<open>ConnectTimeout\<close> and \<open>RequestException\<close> come
  from the \<open>requests\<close> library, the last one standing for every failure of
  \<open>requests.request\<close>, \<open>raise_for_status\<close> and \<open>r.json()\<close> that is not one of the two
  timeouts (its argument tells them apart).
\<close>

datatype exn =
    AccessTokenInvalid json json
  | ClientException json json
  | ReadTimeout
  | ConnectTimeout
  | RequestException nat
  | KeyError str
  | TypeError
  | AssertionError
  | UnicodeEncodeError
  | OverflowError
  | RecursionError

section \<open>Python floats\<close>

text \<open>
  A Python float is an IEEE 754 double. A finite double is a number \<open>m * 2 ^ e\<close> and is
  given by the pair \<open>(m, e)\<close>; the result of an operation is a finite double or an
  infinity. An operation computes the exact result and rounds it to the nearest double,
  a tie going to the even mantissa; a double has 53 bits of mantissa, its smallest
  quantum is \<open>2 ^ -1074\<close>, and a rounded magnitude from \<open>2 ^ 1024\<close> on is an infinity.
\<close>

type_synonym double = "int \<times> int"

datatype pyfloat =
    Finite int int
  | PlusInf
  | MinusInf

text \<open>The number of bits of a positive integer.\<close>

function bitlen :: "int \<Rightarrow> int" where
  "bitlen n = (if n \<le> 0 then 0 else 1 + bitlen (n div 2))"
  by pat_completeness auto
termination
  by (relation "measure nat") auto

declare bitlen.simps [simp del]

text \<open>\<open>n / 2 ^ k\<close> rounded to the nearest integer, a tie to the even one.\<close>

definition round_half_even :: "int \<Rightarrow> nat \<Rightarrow> int" where
  "round_half_even n k =
     (if n mod 2 ^ k > 2 ^ (k - 1) \<or> (n mod 2 ^ k = 2 ^ (k - 1) \<and> odd (n div 2 ^ k))
      then n div 2 ^ k + 1 else n div 2 ^ k)"

text \<open>The exponent of the quantum of the double nearest to \<open>m * 2 ^ e\<close>.\<close>

definition quantum :: "int \<Rightarrow> int \<Rightarrow> int" where
  "quantum m e = max (bitlen \<bar>m\<bar> + e - 53) (- 1074)"

definition infinity :: "int \<Rightarrow> pyfloat" where
  "infinity m = (if 0 < m then PlusInf else MinusInf)"

text \<open>The exact number \<open>m * 2 ^ e\<close> rounded to a double.\<close>

definition to_double :: "int \<Rightarrow> int \<Rightarrow> pyfloat" where
  "to_double m e =
     (if m = 0 then Finite 0 0
      else if quantum m e \<le> e then
        (if bitlen \<bar>m\<bar> + e > 1024 then infinity m else Finite m e)
      else if bitlen (round_half_even \<bar>m\<bar> (nat (quantum m e - e))) + quantum m e > 1024
        then infinity m
      else Finite (sgn m * round_half_even \<bar>m\<bar> (nat (quantum m e - e))) (quantum m e))"

text \<open>
  The conversion of an integer to a float, as an operation of an integer with a float
  makes it: it raises \<open>OverflowError\<close> where the rounded integer is no finite double.
\<close>

definition float_of_int :: "int \<Rightarrow> exn + double" where
  "float_of_int n =
     (case to_double n 0 of Finite m e \<Rightarrow> Inr (m, e) | _ \<Rightarrow> Inl OverflowError)"

text \<open>\<open>a - b\<close> and \<open>a * b\<close> of two finite doubles.\<close>

definition float_sub :: "double \<Rightarrow> double \<Rightarrow> pyfloat" where
  "float_sub a b =
     to_double
       (fst a * 2 ^ nat (snd a - min (snd a) (snd b)) -
        fst b * 2 ^ nat (snd b - min (snd a) (snd b)))
       (min (snd a) (snd b))"

definition float_mul :: "double \<Rightarrow> double \<Rightarrow> pyfloat" where
  "float_mul a b = to_double (fst a * fst b) (snd a + snd b)"

text \<open>\<open>n - t\<close> and \<open>t * n\<close> for an integer \<open>n\<close> and a finite float \<open>t\<close>.\<close>

definition py_sub_int_float :: "int \<Rightarrow> double \<Rightarrow> exn + pyfloat" where
  "py_sub_int_float n t =
     (case float_of_int n of Inl e \<Rightarrow> Inl e | Inr a \<Rightarrow> Inr (float_sub a t))"

definition py_mul_float_int :: "double \<Rightarrow> int \<Rightarrow> exn + pyfloat" where
  "py_mul_float_int t n =
     (case float_of_int n of Inl e \<Rightarrow> Inl e | Inr b \<Rightarrow> Inr (float_mul t b))"

text \<open>\<open>x > n\<close> for a float \<open>x\<close> and an integer \<open>n\<close>: the comparison is exact.\<close>

fun py_gt_int :: "pyfloat \<Rightarrow> int \<Rightarrow> bool" where
  "py_gt_int (Finite m e) n =
     (if 0 \<le> e then m * 2 ^ nat e > n else m > n * 2 ^ nat (- e))"
| "py_gt_int PlusInf n = True"
| "py_gt_int MinusInf n = False"

text \<open>\<open>n - t > k\<close> for two integers \<open>n\<close> and \<open>k\<close> and a finite float \<open>t\<close>.\<close>

definition py_sub_gt :: "int \<Rightarrow> double \<Rightarrow> int \<Rightarrow> exn + bool" where
  "py_sub_gt n t k =
     (case py_sub_int_float n t of Inl e \<Rightarrow> Inl e | Inr x \<Rightarrow> Inr (py_gt_int x k))"

text \<open>\<open>int(x)\<close> truncates towards zero; an infinity raises \<open>OverflowError\<close>.\<close>

definition py_int :: "double \<Rightarrow> int" where
  "py_int t =
     (if 0 \<le> snd t then fst t * 2 ^ nat (snd t)
      else if 0 \<le> fst t then fst t div 2 ^ nat (- snd t)
      else - ((- fst t) div 2 ^ nat (- snd t)))"

fun py_int_float :: "pyfloat \<Rightarrow> exn + int" where
  "py_int_float (Finite m e) = Inr (py_int (m, e))"
| "py_int_float x = Inl OverflowError"

section \<open>util.py\<close>

subsection \<open>\<open>str.lower\<close>, \<open>str.join\<close> and \<open>str.encode('utf-8')\<close>\<close>

definition ascii_lower :: "nat \<Rightarrow> nat" where
  "ascii_lower c = (if 65 \<le> c \<and> c \<le> 90 then c + 32 else c)"

text \<open>
  \<open>str.lower\<close>. On a string of ASCII characters it maps \<open>A\<close>..\<open>Z\<close> to \<open>a\<close>..\<open>z\<close>. On
  any other string it applies the case mapping of the Unicode database, which is a
  parameter \<open>L\<close> of the model.
\<close>

definition lower :: "(str \<Rightarrow> str) \<Rightarrow> str \<Rightarrow> str" where
  "lower L s = (if list_all (\<lambda>c. c < 128) s then map ascii_lower s else L s)"

fun join :: "str \<Rightarrow> str list \<Rightarrow> str" where
  "join sep [] = []"
| "join sep [x] = x"
| "join sep (x # y # ys) = x @ sep @ join sep (y # ys)"

text \<open>
  \<open>str.encode('utf-8')\<close>: one to four bytes for each code point; a surrogate
  (\<open>0xD800\<close>..\<open>0xDFFF\<close>) raises \<open>UnicodeEncodeError\<close>. A number from \<open>0x110000\<close> on is not
  a code point and no Python string holds one; the model puts it with the surrogates.
\<close>

definition utf8_char :: "nat \<Rightarrow> exn + nat list" where
  "utf8_char c =
     (if c < 0x80 then Inr [c]
      else if c < 0x800 then Inr [0xC0 + c div 64, 0x80 + c mod 64]
      else if 0xD800 \<le> c \<and> c \<le> 0xDFFF then Inl UnicodeEncodeError
      else if c < 0x10000 then
        Inr [0xE0 + c div 4096, 0x80 + c div 64 mod 64, 0x80 + c mod 64]
      else if c < 0x110000 then
        Inr [0xF0 + c div 262144, 0x80 + c div 4096 mod 64, 0x80 + c div 64 mod 64,
             0x80 + c mod 64]
      else Inl UnicodeEncodeError)"

fun encode_utf8 :: "str \<Rightarrow> exn + nat list" where
  "encode_utf8 [] = Inr []"
| "encode_utf8 (c # cs) =
     (case utf8_char c of
        Inl e \<Rightarrow> Inl e
      | Inr bs \<Rightarrow> (case encode_utf8 cs of Inl e \<Rightarrow> Inl e | Inr rest \<Rightarrow> Inr (bs @ rest)))"

subsection \<open>\<open>hashlib.sha1\<close>\<close>

text \<open>
  SHA-1 as in FIPS 180-4. A 32-bit word is an \<open>int\<close> in \<open>0..<2^32\<close> with the wrap-around
  written out; a byte is a \<open>nat\<close> below 256.
\<close>

definition add32 :: "int \<Rightarrow> int \<Rightarrow> int" where
  "add32 x y = (x + y) mod 4294967296"

definition rotl32 :: "nat \<Rightarrow> int \<Rightarrow> int" where
  "rotl32 n x = (x * 2 ^ n) mod 4294967296 + x div 2 ^ (32 - n)"

definition not32 :: "int \<Rightarrow> int" where
  "not32 x = 4294967295 - x"

fun be_bytes :: "nat \<Rightarrow> int \<Rightarrow> nat list" where
  "be_bytes 0 v = []"
| "be_bytes (Suc k) v = nat (v div 256 ^ k mod 256) # be_bytes k v"

definition sha1_pad :: "nat list \<Rightarrow> nat list" where
  "sha1_pad m =
     m @ [0x80] @ replicate ((119 - length m mod 64) mod 64) 0 @ be_bytes 8 (8 * int (length m))"

definition be_word :: "nat list \<Rightarrow> int" where
  "be_word bs = foldl (\<lambda>acc b. acc * 256 + int b) 0 bs"

fun words_of :: "nat list \<Rightarrow> int list" where
  "words_of (b0 # b1 # b2 # b3 # bs) = be_word [b0, b1, b2, b3] # words_of bs"
| "words_of bs = []"

text \<open>
  The message schedule: \<open>w\<close> holds the last sixteen words, the result the \<open>n\<close> words that
  follow them.
\<close>

definition next_word :: "int list \<Rightarrow> int" where
  "next_word w = rotl32 1 (w ! 13 XOR w ! 8 XOR w ! 2 XOR w ! 0)"

fun schedule :: "nat \<Rightarrow> int list \<Rightarrow> int list" where
  "schedule 0 w = []"
| "schedule (Suc n) w = next_word w # schedule n (tl w @ [next_word w])"

definition sha1_f :: "nat \<Rightarrow> int \<Rightarrow> int \<Rightarrow> int \<Rightarrow> int" where
  "sha1_f t b c d =
     (if t < 20 then (b AND c) OR (not32 b AND d)
      else if t < 40 then b XOR c XOR d
      else if t < 60 then (b AND c) OR (b AND d) OR (c AND d)
      else b XOR c XOR d)"

definition sha1_k :: "nat \<Rightarrow> int" where
  "sha1_k t =
     (if t < 20 then 0x5A827999 else if t < 40 then 0x6ED9EBA1
      else if t < 60 then 0x8F1BBCDC else 0xCA62C1D6)"

type_synonym sha1_state = "int \<times> int \<times> int \<times> int \<times> int"

fun sha1_rounds :: "nat \<Rightarrow> int list \<Rightarrow> sha1_state \<Rightarrow> sha1_state" where
  "sha1_rounds t [] s = s"
| "sha1_rounds t (w # ws) (a, b, c, d, e) =
     sha1_rounds (t + 1) ws
       (add32 (add32 (add32 (add32 (rotl32 5 a) (sha1_f t b c d)) e) (sha1_k t)) w,
        a, rotl32 30 b, c, d)"

definition sha1_block :: "sha1_state \<Rightarrow> int list \<Rightarrow> sha1_state" where
  "sha1_block h w16 =
     (case h of (h0, h1, h2, h3, h4) \<Rightarrow>
       (case sha1_rounds 0 (w16 @ schedule 64 w16) h of (a, b, c, d, e) \<Rightarrow>
          (add32 h0 a, add32 h1 b, add32 h2 c, add32 h3 d, add32 h4 e)))"

fun sha1_blocks :: "nat \<Rightarrow> sha1_state \<Rightarrow> nat list \<Rightarrow> sha1_state" where
  "sha1_blocks 0 h bs = h"
| "sha1_blocks (Suc n) h bs =
     sha1_blocks n (sha1_block h (words_of (take 64 bs))) (drop 64 bs)"

definition sha1 :: "nat list \<Rightarrow> sha1_state" where
  "sha1 m =
     sha1_blocks (length (sha1_pad m) div 64)
       (0x67452301, 0xEFCDAB89, 0x98BADCFE, 0x10325476, 0xC3D2E1F0) (sha1_pad m)"

definition hexdigit :: "int \<Rightarrow> nat" where
  "hexdigit n = (if n < 10 then 48 + nat n else 87 + nat n)"

fun hex_of :: "nat \<Rightarrow> int \<Rightarrow> str" where
  "hex_of 0 v = []"
| "hex_of (Suc k) v = hexdigit (v div 16 ^ k mod 16) # hex_of k v"

definition hexdigest :: "sha1_state \<Rightarrow> str" where
  "hexdigest h = (case h of (a, b, c, d, e) \<Rightarrow> concat (map (hex_of 8) [a, b, c, d, e]))"

subsection \<open>\<open>get_signature\<close>\<close>

text \<open>
  \<open>sign_param\<close> is a dict from names to values, an association list in insertion order
  with distinct keys. \<open>sorted(sign_param)\<close> is the sorted list of its keys as they are
  given; each key is lower-cased only when its pair is formatted. The values are
  strings, so that \<open>%s\<close> leaves them as they are.
\<close>

fun traverse :: "('a \<Rightarrow> exn + 'b) \<Rightarrow> 'a list \<Rightarrow> exn + 'b list" where
  "traverse f [] = Inr []"
| "traverse f (x # xs) =
     (case f x of
        Inl e \<Rightarrow> Inl e
      | Inr y \<Rightarrow> (case traverse f xs of Inl e \<Rightarrow> Inl e | Inr ys \<Rightarrow> Inr (y # ys)))"

definition format_pair :: "(str \<Rightarrow> str) \<Rightarrow> (str \<times> str) list \<Rightarrow> str \<Rightarrow> exn + str" where
  "format_pair L sign_param key =
     (case map_of sign_param key of
        None \<Rightarrow> Inl (KeyError key)
      | Some v \<Rightarrow> Inr (lower L key @ ustr ''='' @ v))"

definition sha1_hexdigest :: "str \<Rightarrow> exn + str" where
  "sha1_hexdigest s =
     (case encode_utf8 s of Inl e \<Rightarrow> Inl e | Inr bs \<Rightarrow> Inr (hexdigest (sha1 bs)))"

definition get_signature :: "(str \<Rightarrow> str) \<Rightarrow> (str \<times> str) list \<Rightarrow> exn + str" where
  "get_signature L sign_param =
     (case traverse (format_pair L sign_param) (sort (map fst sign_param)) of
        Inl e \<Rightarrow> Inl e
      | Inr pairs \<Rightarrow> sha1_hexdigest (join (ustr ''&'') pairs))"

section \<open>The environment of the client\<close>

text \<open>
  What the client does to the outside is a network call through \<open>requests\<close> or a reading
  of the clock. The world is a deterministic script of both: the \<open>k\<close>-th call of
  \<open>requests.request\<close> with the arguments \<open>rq\<close> ends as \<open>server k rq\<close> says, and the
  \<open>k\<close>-th reading of \<open>time.time()\<close> is the finite double \<open>clock k\<close>. \<open>sent\<close> records
  the calls made so far and \<open>ticks\<close> counts the readings. The theorems hold for every
  script.
\<close>

record http_request =
  rq_method :: str
  rq_url :: str
  rq_timeout :: int
  rq_params :: "(str \<times> json) list option"
  rq_data :: "json option"

text \<open>
  How \<open>requests.request(...)\<close>, \<open>r.raise_for_status()\<close> and \<open>r.json()\<close> end together: with
  one of the two timeouts, with another failure of the transport, of the status or of
  the decoding, or with the decoded body.
\<close>

datatype reply =
    ConnectTimedOut
  | ReadTimedOut
  | Failed nat
  | Body json

record world =
  server :: "nat \<Rightarrow> http_request \<Rightarrow> reply"
  sent :: "http_request list"
  clock :: "nat \<Rightarrow> double"
  ticks :: nat

text \<open>
  The fields of \<open>EClient\<close> that \<open>init_app\<close> sets. \<open>_token\<close> and \<open>_jsapi_ticket\<close> hold
  whatever the server sent (\<open>JNull\<close> is \<open>None\<close>); the two expiry fields are \<open>None\<close> or an
  integer.
\<close>

record client =
  config :: "(str \<times> json) list"
  priv_token :: json
  token_expires_at :: "int option"
  priv_jsapi_ticket :: json
  jsapi_ticket_expires_at :: "int option"

record state =
  self :: client
  env :: world

text \<open>
  A method is a function from the state to a result and the state it leaves; the result
  is the returned value or the raised exception.
\<close>

type_synonym 'a action = "state \<Rightarrow> (exn + 'a) \<times> state"

definition ret :: "'a \<Rightarrow> 'a action" where
  "ret v = (\<lambda>s. (Inr v, s))"

definition raise :: "exn \<Rightarrow> 'a action" where
  "raise e = (\<lambda>s. (Inl e, s))"

definition bind :: "'a action \<Rightarrow> ('a \<Rightarrow> 'b action) \<Rightarrow> 'b action" where
  "bind m f = (\<lambda>s. case m s of (Inl e, s') \<Rightarrow> (Inl e, s') | (Inr v, s') \<Rightarrow> f v s')"

definition lift :: "exn + 'a \<Rightarrow> 'a action" where
  "lift r = (case r of Inl e \<Rightarrow> raise e | Inr v \<Rightarrow> ret v)"

definition get_self :: "client action" where
  "get_self = (\<lambda>s. (Inr (self s), s))"

definition set_self :: "(client \<Rightarrow> client) \<Rightarrow> unit action" where
  "set_self f = (\<lambda>s. (Inr (), s\<lparr>self := f (self s)\<rparr>))"

text \<open>\<open>time.time()\<close>\<close>

definition tick :: "state \<Rightarrow> state" where
  "tick s = s\<lparr>env := (env s)\<lparr>ticks := Suc (ticks (env s))\<rparr>\<rparr>"

definition now :: "state \<Rightarrow> double" where
  "now s = clock (env s) (ticks (env s))"

definition time_time :: "double action" where
  "time_time = (\<lambda>s. (Inr (now s), tick s))"

text \<open>The call of \<open>requests.request\<close> up to the decoded body.\<close>

definition reply_result :: "reply \<Rightarrow> exn + json" where
  "reply_result r =
     (case r of
        ConnectTimedOut \<Rightarrow> Inl ConnectTimeout
      | ReadTimedOut \<Rightarrow> Inl ReadTimeout
      | Failed n \<Rightarrow> Inl (RequestException n)
      | Body j \<Rightarrow> Inr j)"

definition requests_request :: "http_request \<Rightarrow> json action" where
  "requests_request rq =
     (\<lambda>s. (reply_result (server (env s) (length (sent (env s))) rq),
           s\<lparr>env := (env s)\<lparr>sent := sent (env s) @ [rq]\<rparr>\<rparr>))"

section \<open>ewerobot.py\<close>

subsection \<open>Operations of Python on decoded values\<close>

text \<open>The truth value of a value, as \<open>if v:\<close> takes it.\<close>

fun truthy :: "json \<Rightarrow> bool" where
  "truthy JNull = False"
| "truthy (JBool b) = b"
| "truthy (JInt i) = (i \<noteq> 0)"
| "truthy (JStr s) = (s \<noteq> [])"
| "truthy (JArr xs) = (xs \<noteq> [])"
| "truthy (JObj kv) = (kv \<noteq> [])"

text \<open>\<open>v == n\<close> for an integer \<open>n\<close>: \<open>True\<close> and \<open>False\<close> are the integers 1 and 0.\<close>

fun py_eq_int :: "json \<Rightarrow> int \<Rightarrow> bool" where
  "py_eq_int (JInt i) n = (i = n)"
| "py_eq_int (JBool b) n = ((if b then 1 else 0) = n)"
| "py_eq_int v n = False"

text \<open>\<open>n + v\<close> for an integer \<open>n\<close>.\<close>

fun py_add_int :: "int \<Rightarrow> json \<Rightarrow> exn + int" where
  "py_add_int n (JInt i) = Inr (n + i)"
| "py_add_int n (JBool b) = Inr (n + (if b then 1 else 0))"
| "py_add_int n v = Inl TypeError"

text \<open>\<open>key in v\<close> for a string \<open>key\<close>.\<close>

fun contains :: "str \<Rightarrow> json \<Rightarrow> exn + bool" where
  "contains key (JObj kv) = Inr (map_of kv key \<noteq> None)"
| "contains key (JArr xs) = Inr (JStr key \<in> set xs)"
| "contains key (JStr s) = Inr (sublist key s)"
| "contains key v = Inl TypeError"

text \<open>\<open>v[key]\<close> for a string \<open>key\<close>.\<close>

fun getitem :: "json \<Rightarrow> str \<Rightarrow> exn + json" where
  "getitem (JObj kv) key = (case map_of kv key of None \<Rightarrow> Inl (KeyError key) | Some v \<Rightarrow> Inr v)"
| "getitem v key = Inl TypeError"

subsection \<open>\<open>check_error\<close> and \<open>retry_exception\<close>\<close>

definition error_args :: "json \<Rightarrow> exn + json \<times> json" where
  "error_args json =
     (case getitem json (ustr ''errcode'') of
        Inl e \<Rightarrow> Inl e
      | Inr code \<Rightarrow>
          (case getitem json (ustr ''errmsg'') of
             Inl e \<Rightarrow> Inl e
           | Inr msg \<Rightarrow> Inr (code, msg)))"

definition check_error :: "json \<Rightarrow> exn + json" where
  "check_error json =
     (case contains (ustr ''errcode'') json of
        Inl e \<Rightarrow> Inl e
      | Inr False \<Rightarrow> Inr json
      | Inr True \<Rightarrow>
          (case getitem json (ustr ''errcode'') of
             Inl e \<Rightarrow> Inl e
           | Inr code \<Rightarrow>
               if \<not> py_eq_int code 0 then
                 (if py_eq_int code 40001 then
                    (case error_args json of
                       Inl e \<Rightarrow> Inl e
                     | Inr (c, m) \<Rightarrow> Inl (AccessTokenInvalid c m))
                  else
                    (case error_args json of
                       Inl e \<Rightarrow> Inl e
                     | Inr (c, m) \<Rightarrow> Inl (ClientException c m)))
               else Inr json))"

fun retry_exception :: "exn \<Rightarrow> bool" where
  "retry_exception (AccessTokenInvalid c m) = True"
| "retry_exception ReadTimeout = True"
| "retry_exception ConnectTimeout = True"
| "retry_exception e = False"

subsection \<open>The \<open>retry\<close> decorator\<close>

text \<open>
  \<open>@retry(stop_max_attempt_number=3, retry_on_exception=retry_exception)\<close> runs the
  loop of \<open>Retrying.call\<close> of the \<open>retrying\<close> library: it reads the clock once before
  the first attempt and once after each rejected attempt, stops when the attempt number
  has reached the maximum and re-raises the exception of the last attempt
  (\<open>wrap_exception\<close> is off). No wait is configured. The loop also returns the number of
  the attempt it ended with.
\<close>

function retrying_loop ::
  "nat \<Rightarrow> 'a action \<Rightarrow> nat \<Rightarrow> state \<Rightarrow> ((exn + 'a) \<times> state) \<times> nat" where
  "retrying_loop stop_max_attempt_number fn attempt_number s =
     (case fn s of
        (Inr v, s') \<Rightarrow> ((Inr v, s'), attempt_number)
      | (Inl e, s') \<Rightarrow>
          if \<not> retry_exception e then ((Inl e, s'), attempt_number)
          else if attempt_number \<ge> stop_max_attempt_number
            then ((Inl e, tick s'), attempt_number)
          else retrying_loop stop_max_attempt_number fn (attempt_number + 1) (tick s'))"
  by pat_completeness auto
termination
  by (relation "measure (\<lambda>(m, fn, n, s). m - n)") auto

declare retrying_loop.simps [simp del]

definition retry :: "'a action \<Rightarrow> 'a action" where
  "retry fn = (\<lambda>s. fst (retrying_loop 3 fn 1 (tick s)))"


subsection \<open>\<open>EClient.request\<close>\<close>

text \<open>
  The keyword arguments that the callers in this repository and in \<open>werobot.client\<close>
  pass; \<open>None\<close> is a key that is absent.
\<close>

record kwargs =
  kw_params :: "(str \<times> json) list option"
  kw_data :: "json option"
  kw_oauth2_access_token :: "json option"
  kw_timeout :: "json option"

definition no_kwargs :: kwargs where
  "no_kwargs =
     \<lparr>kw_params = None, kw_data = None, kw_oauth2_access_token = None, kw_timeout = None\<rparr>"

text \<open>
  Lines 87 to 91. \<open>token\<close> is the property \<open>self.token\<close> of the base class, which is
  \<open>self.get_access_token()\<close>. \<open>kwargs\<close> is a new dict in every attempt, so that the
  \<open>pop\<close> of one attempt is not seen by the next.
\<close>

definition inject_token :: "json action \<Rightarrow> kwargs \<Rightarrow> kwargs action" where
  "inject_token token kwargs =
     (case kw_params kwargs of
        None \<Rightarrow>
          bind token (\<lambda>t. ret (kwargs\<lparr>kw_params := Some [(ustr ''access_token'', t)]\<rparr>))
      | Some params \<Rightarrow>
          if map_of params (ustr ''access_token'') \<noteq> None then
            (let flag = (case kw_oauth2_access_token kwargs of
                           None \<Rightarrow> JBool False | Some v \<Rightarrow> v);
                 kwargs' = kwargs\<lparr>kw_oauth2_access_token := None\<rparr>
             in if \<not> truthy flag then
                  bind token (\<lambda>t. ret (kwargs'\<lparr>kw_params :=
                    Some (AList.update (ustr ''access_token'') t params)\<rparr>))
                else ret kwargs')
          else ret kwargs)"

text \<open>
  Lines 92 to 95: a dict in \<open>data\<close> is replaced by the UTF-8 bytes of its JSON text,
  written with \<open>ensure_ascii=False\<close>. The model keeps the value for the bytes; the
  encoding raises when a string of the value holds a surrogate.
\<close>

fun encodable :: "json \<Rightarrow> bool" where
  "encodable (JStr s) = (case encode_utf8 s of Inl e \<Rightarrow> False | Inr bs \<Rightarrow> True)"
| "encodable (JArr xs) = list_all encodable xs"
| "encodable (JObj kv) = list_all (\<lambda>p. encodable (JStr (fst p)) \<and> encodable (snd p)) kv"
| "encodable v = True"

definition encode_data :: "kwargs \<Rightarrow> kwargs action" where
  "encode_data kwargs =
     (case kw_data kwargs of
        Some (JObj kv) \<Rightarrow> if encodable (JObj kv) then ret kwargs else raise UnicodeEncodeError
      | _ \<Rightarrow> ret kwargs)"

text \<open>
  Lines 96 to 101: \<open>requests.request(method=method, url=url, timeout=5, **kwargs)\<close>. A
  \<open>timeout\<close> among the keyword arguments is a second value for the same keyword, and an
  \<open>oauth2_access_token\<close> that was not popped is a keyword \<open>requests.request\<close> does not
  have: both calls raise \<open>TypeError\<close> before anything is sent.
\<close>

definition call_requests :: "str \<Rightarrow> str \<Rightarrow> kwargs \<Rightarrow> json action" where
  "call_requests method url kwargs =
     (case (kw_timeout kwargs, kw_oauth2_access_token kwargs) of
        (None, None) \<Rightarrow>
          requests_request
            \<lparr>rq_method = method, rq_url = url, rq_timeout = 5,
             rq_params = kw_params kwargs, rq_data = kw_data kwargs\<rparr>
      | _ \<Rightarrow> raise TypeError)"

text \<open>
  Lines 103 to 109. A body that \<open>check_error\<close> returns is returned when it is true as a
  condition; otherwise the method ends without a \<open>return\<close> and its value is \<open>None\<close>.
\<close>

definition classify :: "(bool \<Rightarrow> json action) \<Rightarrow> json \<Rightarrow> json action" where
  "classify get_access_token json =
     (case check_error json of
        Inr j \<Rightarrow> if truthy j then ret json else ret JNull
      | Inl (AccessTokenInvalid c m) \<Rightarrow>
          bind (get_access_token True) (\<lambda>t. raise (AccessTokenInvalid c m))
      | Inl e \<Rightarrow> raise e)"

text \<open>Lines 87 to 103 of one attempt: the request is prepared and sent.\<close>

definition send_attempt :: "json action \<Rightarrow> str \<Rightarrow> str \<Rightarrow> kwargs \<Rightarrow> json action" where
  "send_attempt token method url kwargs =
     bind (inject_token token kwargs) (\<lambda>kwargs1.
     bind (encode_data kwargs1) (\<lambda>kwargs2.
     call_requests method url kwargs2))"

text \<open>One attempt: the body of \<open>request\<close> under the decorator.\<close>

definition request_attempt ::
  "(bool \<Rightarrow> json action) \<Rightarrow> str \<Rightarrow> str \<Rightarrow> kwargs \<Rightarrow> json action" where
  "request_attempt get_access_token method url kwargs =
     bind (send_attempt (get_access_token False) method url kwargs)
       (classify get_access_token)"

definition request_with ::
  "(bool \<Rightarrow> json action) \<Rightarrow> str \<Rightarrow> str \<Rightarrow> kwargs \<Rightarrow> json action" where
  "request_with get_access_token method url kwargs =
     retry (request_attempt get_access_token method url kwargs)"

subsection \<open>\<open>get_access_token\<close>\<close>

definition appid :: "client \<Rightarrow> json" where
  "appid c = (case map_of (config c) (ustr ''APP_ID'') of None \<Rightarrow> JNull | Some v \<Rightarrow> v)"

definition appsecret :: "client \<Rightarrow> json" where
  "appsecret c = (case map_of (config c) (ustr ''APP_SECRET'') of None \<Rightarrow> JNull | Some v \<Rightarrow> v)"

text \<open>
  \<open>grant_token\<close> is inherited from \<open>werobot.client.Client\<close>: a \<open>GET\<close> of the token
  endpoint through \<open>self.get\<close>, that is through \<open>self.request\<close>, with explicit
  parameters.
\<close>

definition grant_token :: "(str \<Rightarrow> str \<Rightarrow> kwargs \<Rightarrow> json action) \<Rightarrow> json action" where
  "grant_token request =
     bind get_self (\<lambda>c.
       request (ustr ''get'') (ustr ''https://api.weixin.qq.com/cgi-bin/token'')
         (no_kwargs\<lparr>kw_params := Some
            [(ustr ''grant_type'', JStr (ustr ''client_credential'')),
             (ustr ''appid'', appid c),
             (ustr ''secret'', appsecret c)]\<rparr>))"

text \<open>Lines 63 to 65: the fetched body is stored.\<close>

definition store_token :: "json \<Rightarrow> json action" where
  "store_token json =
     bind (lift (getitem json (ustr ''access_token''))) (\<lambda>tok.
     bind (set_self (\<lambda>c. c\<lparr>priv_token := tok\<rparr>)) (\<lambda>_.
     bind time_time (\<lambda>t.
     bind (lift (getitem json (ustr ''expires_in''))) (\<lambda>ttl.
     bind (lift (py_add_int (py_int t) ttl)) (\<lambda>expires_at.
     bind (set_self (\<lambda>c. c\<lparr>token_expires_at := Some expires_at\<rparr>)) (\<lambda>_.
     bind get_self (\<lambda>c. ret (priv_token c))))))))"

text \<open>
  Lines 58 to 65, with the fetch \<open>self.grant_token()\<close> as \<open>fetch\<close>. The test of line 60
  subtracts a float from an integer, or from \<open>None\<close>, and compares the float with 60.
\<close>

definition get_access_token_body :: "json action \<Rightarrow> bool \<Rightarrow> json action" where
  "get_access_token_body fetch force =
     bind get_self (\<lambda>c.
     bind (if \<not> force \<and> truthy (priv_token c) then
             bind time_time (\<lambda>t.
               case token_expires_at c of
                 None \<Rightarrow> raise TypeError
               | Some e \<Rightarrow> lift (py_sub_gt e t 60))
           else ret False) (\<lambda>fresh.
     if fresh then ret (priv_token c)
     else bind fetch store_token))"

text \<open>
  \<open>request\<close> calls \<open>get_access_token\<close>, whose fetch calls \<open>request\<close> again. The first
  argument bounds the depth of this nesting, as the recursion limit of the interpreter
  does; at the bound the call raises \<open>RecursionError\<close>.
\<close>

primrec get_access_token :: "nat \<Rightarrow> bool \<Rightarrow> json action" where
  "get_access_token 0 = (\<lambda>force. raise RecursionError)"
| "get_access_token (Suc d) =
     get_access_token_body (grant_token (request_with (get_access_token d)))"

definition request :: "nat \<Rightarrow> str \<Rightarrow> str \<Rightarrow> kwargs \<Rightarrow> json action" where
  "request d = request_with (get_access_token d)"

definition token :: "nat \<Rightarrow> json action" where
  "token d = get_access_token d False"

text \<open>\<open>get\<close> and \<open>post\<close> of the base class pass their keyword arguments on to \<open>request\<close>.\<close>

definition get :: "nat \<Rightarrow> str \<Rightarrow> kwargs \<Rightarrow> json action" where
  "get d url kwargs = request d (ustr ''get'') url kwargs"

definition post :: "nat \<Rightarrow> str \<Rightarrow> kwargs \<Rightarrow> json action" where
  "post d url kwargs = request d (ustr ''post'') url kwargs"

subsection \<open>\<open>jsapi_ticket\<close> and \<open>get_jsapi_ticket\<close>\<close>

definition jsapi_ticket :: "nat \<Rightarrow> json action" where
  "jsapi_ticket d =
     bind (token d) (\<lambda>t.
       get d (ustr ''https://api.weixin.qq.com/cgi-bin/ticket/getticket'')
         (no_kwargs\<lparr>kw_params := Some
            [(ustr ''type'', JStr (ustr ''jsapi'')), (ustr ''access_token'', t)]\<rparr>))"

text \<open>Lines 81 to 83: the fetched body is stored, and \<open>self._token\<close> is returned.\<close>

definition store_ticket :: "json \<Rightarrow> json action" where
  "store_ticket json =
     bind (lift (getitem json (ustr ''ticket''))) (\<lambda>ticket.
     bind (set_self (\<lambda>c. c\<lparr>priv_jsapi_ticket := ticket\<rparr>)) (\<lambda>_.
     bind time_time (\<lambda>t.
     bind (lift (getitem json (ustr ''expires_in''))) (\<lambda>ttl.
     bind (lift (py_add_int (py_int t) ttl)) (\<lambda>expires_at.
     bind (set_self (\<lambda>c. c\<lparr>jsapi_ticket_expires_at := Some expires_at\<rparr>)) (\<lambda>_.
     bind get_self (\<lambda>c. ret (priv_token c))))))))"

definition get_jsapi_ticket :: "nat \<Rightarrow> bool \<Rightarrow> json action" where
  "get_jsapi_ticket d force =
     bind get_self (\<lambda>c.
     bind (if \<not> force \<and> truthy (priv_jsapi_ticket c) then
             bind time_time (\<lambda>t.
               case jsapi_ticket_expires_at c of
                 None \<Rightarrow> raise TypeError
               | Some e \<Rightarrow> lift (py_sub_gt e t 60))
           else ret False) (\<lambda>fresh.
     if fresh then ret (priv_jsapi_ticket c)
     else bind (jsapi_ticket d) store_ticket))"

subsection \<open>\<open>send_all_text_message\<close>\<close>

definition send_all_text_message :: "nat \<Rightarrow> str \<Rightarrow> json action" where
  "send_all_text_message d content =
     bind (lift (encode_utf8 content)) (\<lambda>bytes.
     if \<not> length bytes < 2048 then raise AssertionError
     else
       bind time_time (\<lambda>t.
       bind (lift (py_mul_float_int t 1000)) (\<lambda>x.
       bind (lift (py_int_float x)) (\<lambda>clientmsgid.
         post d (ustr ''https://api.weixin.qq.com/cgi-bin/message/mass/sendall'')
           (no_kwargs\<lparr>
              kw_data := Some (JObj
                [(ustr ''filter'', JObj [(ustr ''is_to_all'', JBool True)]),
                 (ustr ''text'', JObj [(ustr ''content'', JStr content)]),
                 (ustr ''msgtype'', JStr (ustr ''text'')),
                 (ustr ''clientmsgid'', JInt clientmsgid)]),
              kw_timeout := Some (JInt 10)\<rparr>)))))"

section \<open>The signature as the specification words it\<close>

text \<open>
  The specification of \<open>sign\<close>: lower-case every parameter name, sort the entries by
  name, join them as \<open>name=value\<close> with \<open>&\<close>, and return the SHA-1 hex digest of the
  UTF-8 bytes.
\<close>

definition spec_sign :: "(str \<Rightarrow> str) \<Rightarrow> (str \<times> str) list \<Rightarrow> exn + str" where
  "spec_sign L params =
     sha1_hexdigest (join (ustr ''&'')
       (map (\<lambda>p. fst p @ ustr ''='' @ snd p)
         (sort_key fst (map (\<lambda>p. (lower L (fst p), snd p)) params))))"

section \<open>Inputs of the examples\<close>

text \<open>The parameters of the worked example of the specification.\<close>

definition example_params :: "(str \<times> str) list" where
  "example_params =
     [(ustr ''Timestamp'', ustr ''1''), (ustr ''Url'', ustr ''http://x''),
      (ustr ''Noncestr'', ustr ''abc''), (ustr ''JsapiTicket'', ustr ''t'')]"

text \<open>The parameters that \<open>get_jssdk_config\<close> signs, all in lower case.\<close>

definition jssdk_params :: "(str \<times> str) list" where
  "jssdk_params =
     [(ustr ''noncestr'', ustr ''abc''), (ustr ''jsapi_ticket'', ustr ''t''),
      (ustr ''timestamp'', ustr ''1''), (ustr ''url'', ustr ''http://x'')]"

text \<open>
  A client whose access token is cached and expires at 2000, and a world whose clock
  stands at the double 1000 and whose server answers as \<open>srv\<close> says.
\<close>

definition cached_client :: client where
  "cached_client =
     \<lparr>config = [(ustr ''APP_ID'', JStr (ustr ''YOUR_APP_ID'')),
                (ustr ''APP_SECRET'', JStr (ustr ''YOUR_APP_SECRET''))],
      priv_token = JStr (ustr ''TOKEN''), token_expires_at = Some 2000,
      priv_jsapi_ticket = JNull, jsapi_ticket_expires_at = None\<rparr>"

definition world_of :: "(nat \<Rightarrow> http_request \<Rightarrow> reply) \<Rightarrow> world" where
  "world_of srv = \<lparr>server = srv, sent = [], clock = (\<lambda>k. (1000, 0)), ticks = 0\<rparr>"

text \<open>Every call times out; every call fails with the status 500.\<close>

definition timeout_state :: state where
  "timeout_state = \<lparr>self = cached_client, env = world_of (\<lambda>k rq. ReadTimedOut)\<rparr>"


text \<open>Every call times out, and the cached token expires at 1030, within the margin.\<close>

definition stale_timeout_state :: state where
  "stale_timeout_state =
     \<lparr>self = cached_client\<lparr>token_expires_at := Some 1030\<rparr>,
      env = world_of (\<lambda>k rq. ReadTimedOut)\<rparr>"

text \<open>
  The token endpoint answers with a new token that lives 7200 seconds; the cached token
  expires at \<open>e\<close>.
\<close>

definition token_body :: json where
  "token_body = JObj [(ustr ''access_token'', JStr (ustr ''NEW'')), (ustr ''expires_in'', JInt 7200)]"

definition expiring_state :: "int \<Rightarrow> state" where
  "expiring_state e =
     \<lparr>self = cached_client\<lparr>token_expires_at := Some e\<rparr>,
      env = world_of (\<lambda>k rq. Body token_body)\<rparr>"

text \<open>
  The cached token expires at 61 and the clock stands at \<open>1 - 2 ^ -53\<close>, the largest
  double below 1.
\<close>

definition rounding_state :: state where
  "rounding_state =
     \<lparr>self = cached_client\<lparr>token_expires_at := Some 61\<rparr>,
      env = (world_of (\<lambda>k rq. Body token_body))\<lparr>clock := (\<lambda>k. (9007199254740991, - 53))\<rparr>\<rparr>"

text \<open>The address of one of the calls of the client, \<open>get_industry\<close>.\<close>

definition api_url :: str where
  "api_url = ustr ''https://api.weixin.qq.com/cgi-bin/template/get_industry''"

text \<open>The server answers every call with an empty object; with a ticket; with success.\<close>

definition empty_body_state :: state where
  "empty_body_state = \<lparr>self = cached_client, env = world_of (\<lambda>k rq. Body (JObj []))\<rparr>"

definition ticket_body :: json where
  "ticket_body = JObj [(ustr ''ticket'', JStr (ustr ''TICKET'')), (ustr ''expires_in'', JInt 7200)]"

definition ticket_state :: state where
  "ticket_state = \<lparr>self = cached_client, env = world_of (\<lambda>k rq. Body ticket_body)\<rparr>"

definition ok_body :: json where
  "ok_body = JObj [(ustr ''errcode'', JInt 0), (ustr ''errmsg'', JStr (ustr ''ok''))]"

definition accepting_state :: state where
  "accepting_state = \<lparr>self = cached_client, env = world_of (\<lambda>k rq. Body ok_body)\<rparr>"

text \<open>
  The body that reports an invalid credential, and four servers that send it: one that
  sends it to every call with an even number and a new token to the others; one that
  sends it to the first call, lets the next three calls time out and accepts the rest;
  one that sends it to the first call, a new token to the second and accepts the rest.
  The last server of this section sends a token without \<open>expires_in\<close>.
\<close>

definition invalid_body :: json where
  "invalid_body =
     JObj [(ustr ''errcode'', JInt 40001), (ustr ''errmsg'', JStr (ustr ''invalid credential''))]"

definition alternating_state :: state where
  "alternating_state =
     \<lparr>self = cached_client,
      env = world_of (\<lambda>k rq. if even k then Body invalid_body else Body token_body)\<rparr>"

definition refresh_timeout_state :: state where
  "refresh_timeout_state =
     \<lparr>self = cached_client,
      env = world_of (\<lambda>k rq. if k = 0 then Body invalid_body
                             else if k < 4 then ReadTimedOut else Body ok_body)\<rparr>"

definition refresh_state :: state where
  "refresh_state =
     \<lparr>self = cached_client,
      env = world_of (\<lambda>k rq. if k = 0 then Body invalid_body
                             else if k = 1 then Body token_body else Body ok_body)\<rparr>"

definition partial_state :: state where
  "partial_state =
     \<lparr>self = cached_client,
      env = world_of (\<lambda>k rq. Body (JObj [(ustr ''access_token'', JStr (ustr ''NEW''))]))\<rparr>"

section \<open>Notions of the proofs\<close>

text \<open>
  The cached ticket with its expiry, and the actions that leave both as they are.
\<close>

definition ticket_of :: "state \<Rightarrow> json \<times> int option" where
  "ticket_of s = (priv_jsapi_ticket (self s), jsapi_ticket_expires_at (self s))"

definition keeps_ticket :: "'a action \<Rightarrow> bool" where
  "keeps_ticket m = (\<forall>s. ticket_of (snd (m s)) = ticket_of s)"

text \<open>
  A server that answers no call with a body that \<open>check_error\<close> classifies as
  \<open>AccessTokenInvalid\<close>, and the actions that leave the client and the server as they
  are when they run against such a server.
\<close>

definition never_invalid :: "world \<Rightarrow> bool" where
  "never_invalid w =
     (\<forall>k rq json c m. server w k rq = Body json \<longrightarrow>
        check_error json \<noteq> Inl (AccessTokenInvalid c m))"

definition keeps_client :: "'a action \<Rightarrow> bool" where
  "keeps_client m =
     (\<forall>s. never_invalid (env s) \<longrightarrow>
        self (snd (m s)) = self s \<and> server (env (snd (m s))) = server (env s))"

text \<open>
  \<open>n - t > k\<close> in exact arithmetic, for two integers \<open>n\<close> and \<open>k\<close> and a double \<open>t\<close>, the
  number \<open>fst t * 2 ^ snd t\<close>: for a negative exponent both sides are multiplied by
  \<open>2 ^ - snd t\<close>.
\<close>

definition exceeds :: "int \<Rightarrow> double \<Rightarrow> int \<Rightarrow> bool" where
  "exceeds n t k =
     (n * 2 ^ nat (- snd t) - fst t * 2 ^ nat (snd t) > k * 2 ^ nat (- snd t))"

section \<open>Properties of \<open>get_signature\<close>\<close>

lemma traverse_total:
  "(\<And>x. x \<in> set xs \<Longrightarrow> f x = Inr (g x)) \<Longrightarrow> traverse f xs = Inr (map g xs)"
  by (induction xs) simp_all

lemma format_pair_key:
  assumes "k \<in> fst ` set ps"
  shows "format_pair L ps k = Inr (lower L k @ ustr ''='' @ the (map_of ps k))"
proof -
  from assms obtain v where "map_of ps k = Some v"
    by (cases "map_of ps k") (auto simp: map_of_eq_None_iff)
  then show ?thesis by (simp add: format_pair_def)
qed

lemma get_signature_string:
  "get_signature L ps =
     sha1_hexdigest (join (ustr ''&'')
       (map (\<lambda>k. lower L k @ ustr ''='' @ the (map_of ps k)) (sort (map fst ps))))"
proof -
  have "traverse (format_pair L ps) (sort (map fst ps)) =
        Inr (map (\<lambda>k. lower L k @ ustr ''='' @ the (map_of ps k)) (sort (map fst ps)))"
    by (rule traverse_total) (simp add: format_pair_key)
  then show ?thesis by (simp add: get_signature_def)
qed

lemma map_fst_sort_key:
  assumes "distinct (map fst ps)"
  shows "map fst (sort_key fst ps) = sort (map fst ps)"
proof (rule sorted_distinct_set_unique)
  show "sorted (map fst (sort_key fst ps))" by simp
  show "distinct (map fst (sort_key fst ps))"
    using assms by (simp add: distinct_map)
  show "sorted (sort (map fst ps))" by simp
  show "distinct (sort (map fst ps))" using assms by simp
  show "set (map fst (sort_key fst ps)) = set (sort (map fst ps))" by simp
qed

lemma sort_key_lowered:
  fixes lo :: "str \<Rightarrow> str" and ps :: "(str \<times> str) list"
  assumes d: "distinct (map fst ps)"
    and m: "\<forall>k\<in>set (map fst ps). \<forall>k'\<in>set (map fst ps). k < k' \<longrightarrow> lo k < lo k'"
  shows "sort_key fst (map (\<lambda>p. (lo (fst p), snd p)) ps) =
         map (\<lambda>p. (lo (fst p), snd p)) (sort_key fst ps)"
proof -
  let ?G = "\<lambda>p::str \<times> str. (lo (fst p), snd p)"
  have inj_lo: "inj_on lo (fst ` set ps)"
  proof (rule inj_onI)
    fix a b assume ab: "a \<in> fst ` set ps" "b \<in> fst ` set ps" "lo a = lo b"
    show "a = b"
    proof (rule ccontr)
      assume "a \<noteq> b"
      then have "a < b \<or> b < a" by auto
      with m ab(1,2) have "lo a < lo b \<or> lo b < lo a" by auto
      with ab(3) show False by simp
    qed
  qed
  have inj_key: "inj_on (lo \<circ> fst) (set ps)"
  proof (rule comp_inj_on)
    show "inj_on fst (set ps)" using d by (simp add: distinct_map)
    show "inj_on lo (fst ` set ps)" by (rule inj_lo)
  qed
  have fstG: "fst \<circ> ?G = lo \<circ> fst" by (simp add: fun_eq_iff)
  have inj_fst: "inj_on fst (?G ` set ps)"
  proof (rule inj_onI)
    fix x y assume "x \<in> ?G ` set ps" "y \<in> ?G ` set ps" "fst x = fst y"
    then obtain p q where pq: "p \<in> set ps" "q \<in> set ps" "x = ?G p" "y = ?G q" "lo (fst p) = lo (fst q)"
      by auto
    with inj_key have "p = q" by (auto simp: inj_on_def)
    with pq show "x = y" by simp
  qed
  have inj_G: "inj_on ?G (set ps)"
    using inj_key by (auto simp: inj_on_def)
  have dist_ps: "distinct ps"
    using d by (simp add: distinct_map)
  have dist_keys: "distinct (map (lo \<circ> fst) ps)"
    using d inj_key by (simp add: distinct_map)
  have mono: "\<And>a b. a \<in> set ps \<Longrightarrow> b \<in> set ps \<Longrightarrow> fst a \<le> fst b \<Longrightarrow> lo (fst a) \<le> lo (fst b)"
  proof -
    fix a b assume ab: "a \<in> set ps" "b \<in> set ps" "fst a \<le> fst b"
    show "lo (fst a) \<le> lo (fst b)"
    proof (cases "fst a = fst b")
      case True then show ?thesis by simp
    next
      case False
      with ab(3) have "fst a < fst b" by simp
      with m ab(1,2) have "lo (fst a) < lo (fst b)" by auto
      then show ?thesis by simp
    qed
  qed
  have sorted_lo: "sorted (map (lo \<circ> fst) (sort_key fst ps))"
  proof -
    have "sorted (map fst (sort_key fst ps))" by simp
    then have "sorted_wrt (\<lambda>a b. fst a \<le> fst b) (sort_key fst ps)"
      by (simp add: sorted_wrt_map)
    then have "sorted_wrt (\<lambda>a b. lo (fst a) \<le> lo (fst b)) (sort_key fst ps)"
      by (rule sorted_wrt_mono_rel[rotated]) (auto intro: mono)
    then show ?thesis by (simp add: sorted_wrt_map)
  qed
  show ?thesis
  proof (rule map_sorted_distinct_set_unique[where f = fst])
    show "inj_on fst (set (sort_key fst (map ?G ps)) \<union> set (map ?G (sort_key fst ps)))"
      using inj_fst by simp
    show "sorted (map fst (sort_key fst (map ?G ps)))" by simp
    show "distinct (map fst (sort_key fst (map ?G ps)))"
      using dist_ps inj_G inj_fst by (simp add: distinct_map)
    show "sorted (map fst (map ?G (sort_key fst ps)))"
      using sorted_lo by (simp add: fstG)
    show "distinct (map fst (map ?G (sort_key fst ps)))"
      using dist_keys inj_key d by (simp add: fstG distinct_map)
    show "set (sort_key fst (map ?G ps)) = set (map ?G (sort_key fst ps))" by simp
  qed
qed

lemma get_signature_refines:
  assumes d: "distinct (map fst ps)"
    and m: "\<forall>k\<in>set (map fst ps). \<forall>k'\<in>set (map fst ps). k < k' \<longrightarrow> lower L k < lower L k'"
  shows "get_signature L ps = spec_sign L ps"
proof -
  have "map (\<lambda>k. lower L k @ ustr ''='' @ the (map_of ps k)) (sort (map fst ps)) =
        map (\<lambda>k. lower L k @ ustr ''='' @ the (map_of ps k)) (map fst (sort_key fst ps))"
    using d by (simp only: map_fst_sort_key)
  also have "\<dots> = map (\<lambda>p. lower L (fst p) @ ustr ''='' @ snd p) (sort_key fst ps)"
  proof -
    have "\<And>p. p \<in> set ps \<Longrightarrow> the (map_of ps (fst p)) = snd p"
      using d by (auto simp: map_of_is_SomeI)
    then show ?thesis by (simp add: comp_def)
  qed
  also have "\<dots> = map (\<lambda>p. fst p @ ustr ''='' @ snd p)
                    (map (\<lambda>p. (lower L (fst p), snd p)) (sort_key fst ps))"
    by (simp add: comp_def)
  also have "\<dots> = map (\<lambda>p. fst p @ ustr ''='' @ snd p)
                    (sort_key fst (map (\<lambda>p. (lower L (fst p), snd p)) ps))"
    using sort_key_lowered[OF d m] by simp
  finally show ?thesis
    by (simp add: get_signature_string spec_sign_def)
qed

text \<open>
  C1. Two mappings that are equal after lower-casing the keys get different digests:
  \<open>{"B": "1", "a": "2"}\<close> is signed as \<open>b=1&a=2\<close>, because \<open>B\<close> sorts before \<open>a\<close>, and
  \<open>{"b": "1", "A": "2"}\<close> as \<open>a=2&b=1\<close>.
\<close>

theorem get_signature_key_case:
  "get_signature id [(ustr ''B'', ustr ''1''), (ustr ''a'', ustr ''2'')] =
     Inr (ustr ''7bbb52d2e9f531974cf5e533103e7d7496b0b553'') \<and>
   get_signature id [(ustr ''b'', ustr ''1''), (ustr ''A'', ustr ''2'')] =
     Inr (ustr ''3c4cc30570b610f0add0d993c0788f9d064d373d'')"
  by code_simp

text \<open>
  C2, as stated, fails at its worked example: the signature of the example is not the
  digest of \<open>jsapi_ticket=t&noncestr=abc&timestamp=1&url=http://x\<close>, since the lower case
  of \<open>JsapiTicket\<close> has no underscore.
\<close>

theorem get_signature_example_counterexample:
  "get_signature id example_params \<noteq>
     sha1_hexdigest (ustr ''jsapi_ticket=t&noncestr=abc&timestamp=1&url=http://x'')"
  by code_simp

text \<open>
  C2, amended. Whenever the names are distinct and keep their relative order when they
  are lower-cased (as names already in lower case do), \<open>get_signature\<close> returns what
  the specification describes: the SHA-1 hex digest of the UTF-8 bytes of the
  \<open>name=value\<close> pairs, names lower-cased, sorted by name and joined with \<open>&\<close>. The
  signature of the worked example is the digest of
  \<open>jsapiticket=t&noncestr=abc&timestamp=1&url=http://x\<close>.
\<close>

theorem get_signature_algorithm:
  "(distinct (map fst ps) \<and>
    (\<forall>k\<in>set (map fst ps). \<forall>k'\<in>set (map fst ps). k < k' \<longrightarrow> lower L k < lower L k')
      \<longrightarrow> get_signature L ps = spec_sign L ps) \<and>
   get_signature L example_params =
     sha1_hexdigest (ustr ''jsapiticket=t&noncestr=abc&timestamp=1&url=http://x'')"
proof
  show "distinct (map fst ps) \<and>
    (\<forall>k\<in>set (map fst ps). \<forall>k'\<in>set (map fst ps). k < k' \<longrightarrow> lower L k < lower L k')
      \<longrightarrow> get_signature L ps = spec_sign L ps"
    using get_signature_refines by blast
  show "get_signature L example_params =
     sha1_hexdigest (ustr ''jsapiticket=t&noncestr=abc&timestamp=1&url=http://x'')"
    by code_simp
qed

theorem get_signature_algorithm_witness:
  "distinct (map fst jssdk_params) \<and>
   get_signature id jssdk_params = spec_sign id jssdk_params"
proof -
  have d: "distinct (map fst jssdk_params)"
    by code_simp
  have m: "\<forall>k\<in>set (map fst jssdk_params). \<forall>k'\<in>set (map fst jssdk_params).
      k < k' \<longrightarrow> lower id k < lower id k'"
    by code_simp
  from get_signature_algorithm [of jssdk_params id] d m show ?thesis
    by blast
qed

section \<open>Properties of \<open>check_error\<close>\<close>

text \<open>
  C6, as stated, fails for a body that carries \<open>errcode\<close> without \<open>errmsg\<close>: the body
  \<open>{"errcode": 40001}\<close> raises \<open>KeyError\<close>, not \<open>AccessTokenInvalid\<close>.
\<close>

theorem check_error_counterexample:
  "check_error (JObj [(ustr ''errcode'', JInt 40001)]) = Inl (KeyError (ustr ''errmsg''))"
  by code_simp

text \<open>
  C6, amended. For every decoded body that is an object and that carries \<open>errmsg\<close>
  whenever its \<open>errcode\<close> is present and not 0: \<open>check_error\<close> returns the body when
  \<open>errcode\<close> is absent or equal to 0, raises \<open>AccessTokenInvalid\<close> when \<open>errcode\<close> equals
  40001, and raises \<open>ClientException\<close> for every other \<open>errcode\<close>; both exceptions carry
  the code and the message of the body.
\<close>

theorem check_error_envelope:
  "(map_of kv (ustr ''errcode'') = None \<longrightarrow> check_error (JObj kv) = Inr (JObj kv)) \<and>
   (map_of kv (ustr ''errcode'') = Some c \<and> py_eq_int c 0 \<longrightarrow>
      check_error (JObj kv) = Inr (JObj kv)) \<and>
   (map_of kv (ustr ''errcode'') = Some c \<and> py_eq_int c 40001 \<and>
    map_of kv (ustr ''errmsg'') = Some m \<longrightarrow>
      check_error (JObj kv) = Inl (AccessTokenInvalid c m)) \<and>
   (map_of kv (ustr ''errcode'') = Some c \<and> \<not> py_eq_int c 0 \<and> \<not> py_eq_int c 40001 \<and>
    map_of kv (ustr ''errmsg'') = Some m \<longrightarrow>
      check_error (JObj kv) = Inl (ClientException c m))"
proof -
  have ne: "py_eq_int c 40001 \<Longrightarrow> \<not> py_eq_int c 0"
    by (cases c) (auto split: if_splits)
  show ?thesis
    using ne by (auto simp: check_error_def error_args_def)
qed

theorem check_error_envelope_witness:
  "check_error (JObj []) = Inr (JObj []) \<and>
   check_error (JObj [(ustr ''errcode'', JInt 0)]) = Inr (JObj [(ustr ''errcode'', JInt 0)]) \<and>
   check_error (JObj [(ustr ''errcode'', JInt 40001),
                      (ustr ''errmsg'', JStr (ustr ''invalid credential''))]) =
     Inl (AccessTokenInvalid (JInt 40001) (JStr (ustr ''invalid credential''))) \<and>
   check_error (JObj [(ustr ''errcode'', JInt 40013),
                      (ustr ''errmsg'', JStr (ustr ''invalid appid''))]) =
     Inl (ClientException (JInt 40013) (JStr (ustr ''invalid appid'')))"
proof -
  have neq: "ustr ''errmsg'' \<noteq> ustr ''errcode''"
    by code_simp
  show ?thesis
    using neq
      check_error_envelope [of "[]" JNull JNull]
      check_error_envelope [of "[(ustr ''errcode'', JInt 0)]" "JInt 0" JNull]
      check_error_envelope [of "[(ustr ''errcode'', JInt 40001),
          (ustr ''errmsg'', JStr (ustr ''invalid credential''))]" "JInt 40001"
          "JStr (ustr ''invalid credential'')"]
      check_error_envelope [of "[(ustr ''errcode'', JInt 40013),
          (ustr ''errmsg'', JStr (ustr ''invalid appid''))]" "JInt 40013"
          "JStr (ustr ''invalid appid'')"]
    by simp
qed

section \<open>Actions\<close>

lemma ret_apply: "ret v s = (Inr v, s)"
  by (simp add: ret_def)

lemma raise_apply: "raise e s = (Inl e, s)"
  by (simp add: raise_def)

lemma bind_ret [simp]: "bind (ret v) f = f v"
  by (simp add: bind_def ret_def)

lemma bind_raise [simp]: "bind (raise e) f = raise e"
  by (simp add: bind_def raise_def)

lemma bind_apply:
  "bind m f s = (case m s of (Inl e, s') \<Rightarrow> (Inl e, s') | (Inr v, s') \<Rightarrow> f v s')"
  by (simp add: bind_def)

lemma bind_Inr: "m s = (Inr v, s') \<Longrightarrow> bind m f s = f v s'"
  by (simp add: bind_def)

lemma bind_Inl: "m s = (Inl e, s') \<Longrightarrow> bind m f s = (Inl e, s')"
  by (simp add: bind_def)

lemma lift_Inr [simp]: "lift (Inr v) = ret v"
  by (simp add: lift_def)

lemma lift_Inl [simp]: "lift (Inl e) = raise e"
  by (simp add: lift_def)

lemma get_self_apply: "get_self s = (Inr (self s), s)"
  by (simp add: get_self_def)

lemma time_time_apply: "time_time s = (Inr (now s), tick s)"
  by (simp add: time_time_def)

lemma retrying_returns:
  "fn s = (Inr v, s') \<Longrightarrow> retrying_loop m fn n s = ((Inr v, s'), n)"
  by (subst retrying_loop.simps) simp

lemma retrying_fatal:
  "fn s = (Inl e, s') \<Longrightarrow> \<not> retry_exception e \<Longrightarrow> retrying_loop m fn n s = ((Inl e, s'), n)"
  by (subst retrying_loop.simps) simp

lemma retrying_last:
  "fn s = (Inl e, s') \<Longrightarrow> retry_exception e \<Longrightarrow> m \<le> n \<Longrightarrow>
   retrying_loop m fn n s = ((Inl e, tick s'), n)"
  by (subst retrying_loop.simps) simp

lemma retrying_again:
  "fn s = (Inl e, s') \<Longrightarrow> retry_exception e \<Longrightarrow> n < m \<Longrightarrow>
   retrying_loop m fn n s = retrying_loop m fn (n + 1) (tick s')"
  by (subst retrying_loop.simps) simp

section \<open>The retry bound of \<open>request\<close>\<close>



section \<open>Differences that a double holds\<close>

lemma bitlen_le: "0 \<le> n \<Longrightarrow> n < 2 ^ k \<Longrightarrow> bitlen n \<le> int k"
proof (induction k arbitrary: n)
  case 0
  then show ?case by (simp add: bitlen.simps)
next
  case (Suc k)
  show ?case
  proof (cases "n \<le> 0")
    case True
    then show ?thesis by (simp add: bitlen.simps)
  next
    case False
    with Suc.prems have "0 \<le> n div 2" "n div 2 < 2 ^ k" by auto
    then have "bitlen (n div 2) \<le> int k" by (rule Suc.IH)
    with False show ?thesis by (subst bitlen.simps) simp
  qed
qed

lemma to_double_exact:
  assumes "\<bar>m\<bar> < 2 ^ 53" and "- 1074 \<le> e" and "e \<le> 0"
  shows "to_double m e = (if m = 0 then Finite 0 0 else Finite m e)"
proof -
  have "bitlen \<bar>m\<bar> \<le> 53"
    using bitlen_le [of "\<bar>m\<bar>" 53] assms(1) by simp
  with assms show ?thesis
    by (simp add: to_double_def quantum_def)
qed

lemma float_of_int_exact:
  "\<bar>n\<bar> < 2 ^ 53 \<Longrightarrow> float_of_int n = Inr (if n = 0 then (0, 0) else (n, 0))"
  by (simp add: float_of_int_def to_double_exact)

lemma py_sub_gt_exact:
  assumes "\<bar>n\<bar> < 2 ^ 53" and "- 1074 \<le> snd t" and "snd t \<le> 0"
    and "\<bar>n * 2 ^ nat (- snd t) - fst t\<bar> < 2 ^ 53"
  shows "py_sub_gt n t k = Inr (exceeds n t k)"
  using assms
  by (auto simp add: py_sub_gt_def py_sub_int_float_def float_of_int_exact float_sub_def
      to_double_exact exceeds_def min_def mult_less_0_iff split: if_splits)

section \<open>The freshness margin of \<open>get_access_token\<close>\<close>

lemma get_access_token_body_cached:
  "truthy (priv_token (self s)) \<Longrightarrow> token_expires_at (self s) = Some e \<Longrightarrow>
   py_sub_gt e (now s) 60 = Inr True \<Longrightarrow>
   get_access_token_body fetch False s = (Inr (priv_token (self s)), tick s)"
  by (simp add: get_access_token_body_def bind_def get_self_def time_time_def ret_def tick_def)

lemma get_access_token_body_stale:
  "truthy (priv_token (self s)) \<Longrightarrow> token_expires_at (self s) = Some e \<Longrightarrow>
   py_sub_gt e (now s) 60 = Inr False \<Longrightarrow>
   get_access_token_body fetch False s = bind fetch store_token (tick s)"
  by (simp add: get_access_token_body_def bind_def get_self_def time_time_def ret_def tick_def)

lemma get_access_token_body_raises:
  "truthy (priv_token (self s)) \<Longrightarrow> token_expires_at (self s) = Some e \<Longrightarrow>
   py_sub_gt e (now s) 60 = Inl x \<Longrightarrow>
   get_access_token_body fetch False s = (Inl x, tick s)"
  by (simp add: get_access_token_body_def bind_def get_self_def time_time_def raise_def
      tick_def)

lemma get_access_token_body_fetch:
  "force \<or> \<not> truthy (priv_token (self s)) \<Longrightarrow>
   get_access_token_body fetch force s = bind fetch store_token s"
  by (auto simp add: get_access_token_body_def bind_def get_self_def ret_def)

lemma store_token_stores:
  "getitem json (ustr ''access_token'') = Inr tok \<Longrightarrow>
   getitem json (ustr ''expires_in'') = Inr (JInt ttl) \<Longrightarrow>
   store_token json s =
     (Inr tok, (tick s)\<lparr>self := (self s)\<lparr>priv_token := tok,
        token_expires_at := Some (py_int (now s) + ttl)\<rparr>\<rparr>)"
  by (simp add: store_token_def bind_def get_self_def set_self_def time_time_def ret_def
      tick_def now_def)

text \<open>
  C7, as stated, fails. The test of the margin is made on floats. A cached token whose
  expiry is \<open>2 ^ 1024\<close> has no float: \<open>get_access_token(force=False)\<close> raises
  \<open>OverflowError\<close>, so that it neither returns the cached token nor runs the fetch. With
  the expiry 61 and the clock at \<open>1 - 2 ^ -53\<close> the expiry minus the time exceeds 60, yet
  the difference of the floats is rounded to 60 and the fetch is run.
\<close>

theorem get_access_token_margin_counterexample:
  "truthy (priv_token (self (expiring_state (2 ^ 1024)))) \<and>
   fst (get_access_token (Suc 0) False (expiring_state (2 ^ 1024))) = Inl OverflowError \<and>
   sent (env (snd (get_access_token (Suc 0) False (expiring_state (2 ^ 1024))))) = [] \<and>
   token_expires_at (self rounding_state) = Some 61 \<and>
   exceeds 61 (now rounding_state) 60 \<and>
   fst (get_access_token (Suc 0) False rounding_state) = Inr (JStr (ustr ''NEW'')) \<and>
   length (sent (env (snd (get_access_token (Suc 0) False rounding_state)))) = 1"
  by code_simp

text \<open>
  C7, amended. For a cached access token with an expiry time \<open>e\<close>, the call
  \<open>get_access_token(force=False)\<close> follows the test \<open>e - now > 60\<close> as the interpreter
  computes it: \<open>e\<close> is converted to a double, the difference is rounded to a double and
  compared with 60. When the test holds, the cached token is returned, and the state
  differs only in the count of clock readings, so that nothing was sent. When it does
  not hold, the fetch \<open>grant_token\<close> is run and what it returns is stored: when the
  fetched body holds \<open>access_token\<close> and an integer \<open>expires_in\<close>, the token is returned
  and stored together with the expiry \<open>int(time.time()) + expires_in\<close>, the time read
  after the fetch. When the conversion of \<open>e\<close> raises, the call raises the same exception
  and nothing is fetched. The test is the exact comparison of \<open>e - now\<close> with 60 whenever
  \<open>e\<close> is below \<open>2 ^ 53\<close> in magnitude and the difference, counted in quanta of the clock,
  is below \<open>2 ^ 53\<close> in magnitude too.
\<close>

theorem get_access_token_freshness:
  "truthy (priv_token (self s)) \<and> token_expires_at (self s) = Some e \<longrightarrow>
     (py_sub_gt e (now s) 60 = Inr True \<longrightarrow>
        get_access_token (Suc d) False s = (Inr (priv_token (self s)), tick s) \<and>
        sent (env (tick s)) = sent (env s)) \<and>
     (py_sub_gt e (now s) 60 = Inr False \<longrightarrow>
        get_access_token (Suc d) False s =
          bind (grant_token (request d)) store_token (tick s)) \<and>
     (py_sub_gt e (now s) 60 = Inr False \<and>
      grant_token (request d) (tick s) = (Inr json, s1) \<and>
      getitem json (ustr ''access_token'') = Inr tok \<and>
      getitem json (ustr ''expires_in'') = Inr (JInt ttl) \<longrightarrow>
        get_access_token (Suc d) False s =
          (Inr tok, (tick s1)\<lparr>self := (self s1)\<lparr>priv_token := tok,
             token_expires_at := Some (py_int (now s1) + ttl)\<rparr>\<rparr>)) \<and>
     (py_sub_gt e (now s) 60 = Inl x \<longrightarrow>
        get_access_token (Suc d) False s = (Inl x, tick s) \<and>
        sent (env (tick s)) = sent (env s)) \<and>
     (\<bar>e\<bar> < 2 ^ 53 \<and> - 1074 \<le> snd (now s) \<and> snd (now s) \<le> 0 \<and>
      \<bar>e * 2 ^ nat (- snd (now s)) - fst (now s)\<bar> < 2 ^ 53 \<longrightarrow>
        py_sub_gt e (now s) 60 = Inr (exceeds e (now s) 60))"
proof (intro impI conjI)
  assume h: "truthy (priv_token (self s)) \<and> token_expires_at (self s) = Some e"
  {
    assume "py_sub_gt e (now s) 60 = Inr True"
    with h show "get_access_token (Suc d) False s = (Inr (priv_token (self s)), tick s)"
      by (simp add: get_access_token_body_cached)
  }
  show "sent (env (tick s)) = sent (env s)"
    by (simp add: tick_def)
  {
    assume "py_sub_gt e (now s) 60 = Inr False"
    with h show "get_access_token (Suc d) False s =
          bind (grant_token (request d)) store_token (tick s)"
      by (simp add: get_access_token_body_stale request_def)
  }
  {
    assume a: "py_sub_gt e (now s) 60 = Inr False \<and>
      grant_token (request d) (tick s) = (Inr json, s1) \<and>
      getitem json (ustr ''access_token'') = Inr tok \<and>
      getitem json (ustr ''expires_in'') = Inr (JInt ttl)"
    with h have "get_access_token (Suc d) False s =
          bind (grant_token (request d)) store_token (tick s)"
      by (simp add: get_access_token_body_stale request_def)
    also from a have "\<dots> = store_token json s1"
      by (simp add: bind_Inr)
    also from a have "\<dots> = (Inr tok, (tick s1)\<lparr>self := (self s1)\<lparr>priv_token := tok,
             token_expires_at := Some (py_int (now s1) + ttl)\<rparr>\<rparr>)"
      by (simp add: store_token_stores)
    finally show "get_access_token (Suc d) False s =
          (Inr tok, (tick s1)\<lparr>self := (self s1)\<lparr>priv_token := tok,
             token_expires_at := Some (py_int (now s1) + ttl)\<rparr>\<rparr>)" .
  }
  {
    assume "py_sub_gt e (now s) 60 = Inl x"
    with h show "get_access_token (Suc d) False s = (Inl x, tick s)"
      by (simp add: get_access_token_body_raises)
  }
  show "sent (env (tick s)) = sent (env s)"
    by (simp add: tick_def)
  {
    assume "\<bar>e\<bar> < 2 ^ 53 \<and> - 1074 \<le> snd (now s) \<and> snd (now s) \<le> 0 \<and>
      \<bar>e * 2 ^ nat (- snd (now s)) - fst (now s)\<bar> < 2 ^ 53"
    then show "py_sub_gt e (now s) 60 = Inr (exceeds e (now s) 60)"
      by (simp add: py_sub_gt_exact)
  }
qed

theorem get_access_token_freshness_witness:
  "fst (get_access_token (Suc 0) False (expiring_state 1120)) = Inr (JStr (ustr ''TOKEN'')) \<and>
   sent (env (snd (get_access_token (Suc 0) False (expiring_state 1120)))) = [] \<and>
   fst (get_access_token (Suc 0) False (expiring_state 1030)) = Inr (JStr (ustr ''NEW'')) \<and>
   token_expires_at (self (snd (get_access_token (Suc 0) False (expiring_state 1030)))) =
     Some 8200 \<and>
   length (sent (env (snd (get_access_token (Suc 0) False (expiring_state 1030))))) = 1 \<and>
   get_access_token (Suc 0) False (expiring_state (2 ^ 1024)) =
     (Inl OverflowError, tick (expiring_state (2 ^ 1024))) \<and>
   py_sub_gt 1120 (now (expiring_state 1120)) 60 = Inr True \<and>
   py_sub_gt 1030 (now (expiring_state 1030)) 60 = Inr False"
proof -
  have tr: "\<And>e. truthy (priv_token (self (expiring_state e))) \<and>
      token_expires_at (self (expiring_state e)) = Some e"
    by (simp add: expiring_state_def cached_client_def ustr_def)
  have nw: "\<And>e. now (expiring_state e) = (1000, 0)"
    by (simp add: expiring_state_def now_def world_of_def)
  have ex: "exceeds 1120 (1000, 0) 60" "\<not> exceeds 1030 (1000, 0) 60"
    by (simp_all add: exceeds_def)
  from tr [of 1120] nw [of 1120] ex
    get_access_token_freshness [where s = "expiring_state 1120" and e = 1120]
  have far: "py_sub_gt 1120 (now (expiring_state 1120)) 60 = Inr True"
    by simp
  from tr [of 1030] nw [of 1030] ex
    get_access_token_freshness [where s = "expiring_state 1030" and e = 1030]
  have near: "py_sub_gt 1030 (now (expiring_state 1030)) 60 = Inr False"
    by simp
  have "py_sub_gt (2 ^ 1024) (1000, 0) 60 = Inl OverflowError"
    by code_simp
  then have over: "py_sub_gt (2 ^ 1024) (now (expiring_state (2 ^ 1024))) 60 =
      Inl OverflowError"
    by (simp only: nw)
  from tr [of 1120] far
    get_access_token_freshness [where s = "expiring_state 1120" and e = 1120 and d = 0]
  have fresh: "get_access_token (Suc 0) False (expiring_state 1120) =
      (Inr (priv_token (self (expiring_state 1120))), tick (expiring_state 1120))"
    by blast
  from tr [of "2 ^ 1024"] over
    get_access_token_freshness [where s = "expiring_state (2 ^ 1024)" and e = "2 ^ 1024"
      and d = 0 and x = OverflowError]
  have raised: "get_access_token (Suc 0) False (expiring_state (2 ^ 1024)) =
      (Inl OverflowError, tick (expiring_state (2 ^ 1024)))"
    by blast
  let ?s1 = "snd (grant_token (request 0) (tick (expiring_state 1030)))"
  have "fst (grant_token (request 0) (tick (expiring_state 1030))) = Inr token_body"
    by code_simp
  then have g: "grant_token (request 0) (tick (expiring_state 1030)) = (Inr token_body, ?s1)"
    by (simp add: prod_eq_iff)
  have gi: "getitem token_body (ustr ''access_token'') = Inr (JStr (ustr ''NEW''))"
    "getitem token_body (ustr ''expires_in'') = Inr (JInt 7200)"
    by code_simp+
  from tr [of 1030] near g gi
    get_access_token_freshness [where s = "expiring_state 1030" and e = 1030 and d = 0
      and json = token_body and ?s1.0 = ?s1 and tok = "JStr (ustr ''NEW'')" and ttl = 7200]
  have stale: "get_access_token (Suc 0) False (expiring_state 1030) =
      (Inr (JStr (ustr ''NEW'')), (tick ?s1)\<lparr>self := (self ?s1)\<lparr>priv_token := JStr (ustr ''NEW''),
             token_expires_at := Some (py_int (now ?s1) + 7200)\<rparr>\<rparr>)"
    by blast
  have n1: "py_int (now ?s1) = 1000"
    by code_simp
  have l1: "length (sent (env ?s1)) = 1"
    by code_simp
  show ?thesis
    unfolding fresh stale raised
    using n1 l1 far near
    by (simp add: expiring_state_def cached_client_def world_of_def tick_def)
qed

section \<open>What \<open>get_jsapi_ticket\<close> returns\<close>

text \<open>
  C3. On the refresh path \<open>get_jsapi_ticket\<close> stores the fetched ticket and returns
  \<open>self._token\<close>: with the access token \<open>TOKEN\<close> in the cache and a server that sends the
  ticket \<open>TICKET\<close>, the forced call stores \<open>TICKET\<close> and returns \<open>TOKEN\<close>.
\<close>

theorem get_jsapi_ticket_returns_token:
  "fst (get_jsapi_ticket (Suc 0) True ticket_state) = Inr (JStr (ustr ''TOKEN'')) \<and>
   priv_jsapi_ticket (self (snd (get_jsapi_ticket (Suc 0) True ticket_state))) =
     JStr (ustr ''TICKET'')"
  by code_simp

section \<open>What \<open>request\<close> returns for an empty body\<close>

text \<open>
  C8. The empty object passes \<open>check_error\<close>, and \<open>request\<close> returns \<open>None\<close> for it, not
  the body: the body is tested as a condition before it is returned.
\<close>

theorem request_empty_body:
  "check_error (JObj []) = Inr (JObj []) \<and>
   fst (request (Suc 0) (ustr ''get'') api_url no_kwargs empty_body_state) = Inr JNull"
  by code_simp

section \<open>The size guard of \<open>send_all_text_message\<close>\<close>

lemma encode_utf8_ascii: "list_all (\<lambda>c. c < 128) s \<Longrightarrow> encode_utf8 s = Inr s"
  by (induction s) (simp_all add: utf8_char_def)

lemma send_all_text_message_rejected:
  "encode_utf8 content = Inr bs \<Longrightarrow> \<not> length bs < 2048 \<Longrightarrow>
   send_all_text_message d content s = (Inl AssertionError, s)"
  by (simp add: send_all_text_message_def raise_apply)

lemma send_all_text_message_type_error:
  assumes enc: "encode_utf8 content = Inr bs"
    and len: "length bs < 2048"
    and mul: "py_mul_float_int (now s) 1000 = Inr x"
    and msgid: "py_int_float x = Inr k"
    and tok: "truthy (priv_token (self s))"
    and ex: "token_expires_at (self s) = Some e"
    and fresh: "py_sub_gt e (clock (env s) (ticks (env s) + 2)) 60 = Inr True"
  shows "send_all_text_message (Suc d) content s = (Inl TypeError, tick (tick (tick s)))"
proof -
  let ?G = "get_access_token (Suc d)"
  let ?s2 = "tick (tick s)"
  have g: "?G False ?s2 = (Inr (priv_token (self s)), tick ?s2)"
    using tok ex fresh
      get_access_token_body_cached [of ?s2 e "grant_token (request_with (get_access_token d))"]
    by (simp add: tick_def now_def)
  have lit: "encodable (JStr (ustr ''filter''))" "encodable (JStr (ustr ''is_to_all''))"
    "encodable (JStr (ustr ''text''))" "encodable (JStr (ustr ''content''))"
    "encodable (JStr (ustr ''msgtype''))" "encodable (JStr (ustr ''clientmsgid''))"
    by code_simp+
  have cont: "encodable (JStr content)"
    using enc by simp
  have ok: "\<And>kd. encodable (JObj
          [(ustr ''filter'', JObj [(ustr ''is_to_all'', JBool True)]),
           (ustr ''text'', JObj [(ustr ''content'', JStr content)]),
           (ustr ''msgtype'', JStr (ustr ''text'')),
           (ustr ''clientmsgid'', JInt kd)])"
    using lit cont by simp
  have att: "\<And>kd u. request_attempt ?G (ustr ''post'') u
      (no_kwargs\<lparr>kw_data := Some (JObj
          [(ustr ''filter'', JObj [(ustr ''is_to_all'', JBool True)]),
           (ustr ''text'', JObj [(ustr ''content'', JStr content)]),
           (ustr ''msgtype'', JStr (ustr ''text'')),
           (ustr ''clientmsgid'', JInt kd)]),
        kw_timeout := Some (JInt 10)\<rparr>) ?s2 = (Inl TypeError, tick ?s2)"
    using g ok
    by (simp add: request_attempt_def send_attempt_def inject_token_def no_kwargs_def
        bind_apply ret_apply encode_data_def call_requests_def raise_apply
        del: get_access_token.simps encodable.simps)
  have loop: "\<And>kd u. retrying_loop 3 (request_attempt ?G (ustr ''post'') u
      (no_kwargs\<lparr>kw_data := Some (JObj
          [(ustr ''filter'', JObj [(ustr ''is_to_all'', JBool True)]),
           (ustr ''text'', JObj [(ustr ''content'', JStr content)]),
           (ustr ''msgtype'', JStr (ustr ''text'')),
           (ustr ''clientmsgid'', JInt kd)]),
        kw_timeout := Some (JInt 10)\<rparr>)) 1 ?s2 = ((Inl TypeError, tick ?s2), 1)"
    by (rule retrying_fatal, rule att, simp)
  show ?thesis
    using enc len mul msgid
    by (simp add: send_all_text_message_def bind_Inr [OF time_time_apply] post_def request_def
        request_with_def retry_def loop del: get_access_token.simps One_nat_def)
qed

text \<open>
  C10. A content of 2047 bytes passes the assertion and is never submitted: \<open>post\<close> hands
  \<open>timeout=10\<close> to \<open>request\<close>, which passes it to \<open>requests.request\<close> next to its own
  \<open>timeout=5\<close>, and the call raises \<open>TypeError\<close> with nothing sent. A content of 2048
  bytes fails the assertion.
\<close>

theorem send_all_text_message_below_limit:
  "fst (send_all_text_message (Suc 0) (replicate 2047 97) accepting_state) = Inl TypeError \<and>
   sent (env (snd (send_all_text_message (Suc 0) (replicate 2047 97) accepting_state))) = [] \<and>
   fst (send_all_text_message (Suc 0) (replicate 2048 97) accepting_state) = Inl AssertionError"
proof -
  have enc: "\<And>n. encode_utf8 (replicate n 97) = Inr (replicate n 97)"
    by (rule encode_utf8_ascii) (simp add: list_all_iff)
  have mul: "py_mul_float_int (1000, 0) 1000 = Inr (Finite 1000000 0)"
    by code_simp
  have fresh: "py_sub_gt 2000 (1000, 0) 60 = Inr True"
    by code_simp
  have "send_all_text_message (Suc 0) (replicate 2047 97) accepting_state =
      (Inl TypeError, tick (tick (tick accepting_state)))"
    by (rule send_all_text_message_type_error
          [where bs = "replicate 2047 97" and e = 2000 and x = "Finite 1000000 0"
             and k = 1000000])
       (simp_all add: enc mul fresh accepting_state_def cached_client_def world_of_def
          ustr_def now_def py_int_def)
  moreover have "send_all_text_message (Suc 0) (replicate 2048 97) accepting_state =
      (Inl AssertionError, accepting_state)"
    by (rule send_all_text_message_rejected [where bs = "replicate 2048 97"])
       (simp_all add: enc)
  ultimately show ?thesis
    by (simp add: tick_def accepting_state_def world_of_def)
qed

section \<open>The ticket is left alone by every call of the token and of \<open>request\<close>\<close>

lemma keeps_ticketD: "keeps_ticket m \<Longrightarrow> m s = (r, s') \<Longrightarrow> ticket_of s' = ticket_of s"
  by (auto simp: keeps_ticket_def dest: spec [of _ s])

lemma ticket_of_tick [simp]: "ticket_of (tick s) = ticket_of s"
  by (simp add: ticket_of_def tick_def)

lemma keeps_ret [simp]: "keeps_ticket (ret v)"
  by (simp add: keeps_ticket_def ret_def)

lemma keeps_raise [simp]: "keeps_ticket (raise e)"
  by (simp add: keeps_ticket_def raise_def)

lemma keeps_bind:
  assumes "keeps_ticket m" and "\<And>v. keeps_ticket (f v)"
  shows "keeps_ticket (bind m f)"
  unfolding keeps_ticket_def
proof
  fix s
  obtain r s1 where m: "m s = (r, s1)" by (cases "m s")
  with assms(1) have t1: "ticket_of s1 = ticket_of s" by (rule keeps_ticketD)
  show "ticket_of (snd (bind m f s)) = ticket_of s"
  proof (cases r)
    case (Inl e)
    with m t1 show ?thesis by (simp add: bind_def)
  next
    case (Inr v)
    obtain r2 s2 where f: "f v s1 = (r2, s2)" by (cases "f v s1")
    with assms(2) have "ticket_of s2 = ticket_of s1" by (rule keeps_ticketD)
    with m Inr f t1 show ?thesis by (simp add: bind_def)
  qed
qed

lemma keeps_lift [simp]: "keeps_ticket (lift r)"
  by (cases r) simp_all

lemma keeps_get_self [simp]: "keeps_ticket get_self"
  by (simp add: keeps_ticket_def get_self_def)

lemma keeps_time_time [simp]: "keeps_ticket time_time"
  by (simp add: keeps_ticket_def time_time_def)

lemma keeps_requests_request [simp]: "keeps_ticket (requests_request rq)"
  by (simp add: keeps_ticket_def requests_request_def ticket_of_def)

lemma keeps_set_token [simp]: "keeps_ticket (set_self (\<lambda>c. c\<lparr>priv_token := t\<rparr>))"
  by (simp add: keeps_ticket_def set_self_def ticket_of_def)

lemma keeps_set_token_expires_at [simp]:
  "keeps_ticket (set_self (\<lambda>c. c\<lparr>token_expires_at := x\<rparr>))"
  by (simp add: keeps_ticket_def set_self_def ticket_of_def)

lemma retrying_loop_keeps:
  "keeps_ticket fn \<Longrightarrow> ticket_of (snd (fst (retrying_loop m fn n s))) = ticket_of s"
proof (induction m fn n s rule: retrying_loop.induct)
  case (1 m fn n s)
  obtain r s1 where f: "fn s = (r, s1)" by (cases "fn s")
  with "1.prems" have t1: "ticket_of s1 = ticket_of s" by (rule keeps_ticketD)
  show ?case
  proof (cases r)
    case (Inr v)
    with f t1 show ?thesis by (simp add: retrying_returns)
  next
    case (Inl e)
    show ?thesis
    proof (cases "retry_exception e")
      case False
      with f Inl t1 show ?thesis by (simp add: retrying_fatal)
    next
      case True
      show ?thesis
      proof (cases "m \<le> n")
        case True
        with f Inl \<open>retry_exception e\<close> t1 show ?thesis by (simp add: retrying_last)
      next
        case False
        with f Inl \<open>retry_exception e\<close> have
          "retrying_loop m fn n s = retrying_loop m fn (n + 1) (tick s1)"
          by (simp add: retrying_again)
        moreover have
          "ticket_of (snd (fst (retrying_loop m fn (n + 1) (tick s1)))) = ticket_of (tick s1)"
          using "1.IH" "1.prems" f Inl \<open>retry_exception e\<close> False by auto
        ultimately show ?thesis using t1 by simp
      qed
    qed
  qed
qed

lemma keeps_retry:
  assumes "keeps_ticket fn"
  shows "keeps_ticket (retry fn)"
  unfolding keeps_ticket_def
proof
  fix s
  show "ticket_of (snd (retry fn s)) = ticket_of s"
    using retrying_loop_keeps [OF assms, of 3 1 "tick s"] by (simp add: retry_def)
qed

lemma keeps_inject_token: "keeps_ticket tok \<Longrightarrow> keeps_ticket (inject_token tok kwargs)"
  by (auto simp: inject_token_def Let_def intro!: keeps_bind split: option.splits)

lemma keeps_encode_data [simp]: "keeps_ticket (encode_data kwargs)"
  by (simp add: encode_data_def split: option.splits json.splits)

lemma keeps_call_requests [simp]: "keeps_ticket (call_requests method url kwargs)"
  by (simp add: call_requests_def split: option.splits)

lemma keeps_classify:
  "(\<And>force. keeps_ticket (G force)) \<Longrightarrow> keeps_ticket (classify G json)"
  by (auto simp: classify_def intro!: keeps_bind split: sum.splits exn.splits)

lemma keeps_request_with:
  assumes "\<And>force. keeps_ticket (G force)"
  shows "keeps_ticket (request_with G method url kwargs)"
  unfolding request_with_def request_attempt_def send_attempt_def
  by (intro keeps_retry keeps_bind keeps_inject_token keeps_classify assms
      keeps_encode_data keeps_call_requests)

lemma keeps_store_token [simp]: "keeps_ticket (store_token json)"
  unfolding store_token_def
  by (intro keeps_bind keeps_lift keeps_set_token keeps_time_time keeps_set_token_expires_at
      keeps_get_self keeps_ret)

lemma keeps_get_access_token_body:
  "keeps_ticket fetch \<Longrightarrow> keeps_ticket (get_access_token_body fetch force)"
  unfolding get_access_token_body_def
  by (auto intro!: keeps_bind split: option.splits)

lemma keeps_grant_token:
  "(\<And>method url kwargs. keeps_ticket (req method url kwargs)) \<Longrightarrow> keeps_ticket (grant_token req)"
  unfolding grant_token_def by (auto intro!: keeps_bind)

lemma keeps_get_access_token: "keeps_ticket (get_access_token d force)"
proof (induction d arbitrary: force)
  case 0
  show ?case by simp
next
  case (Suc d)
  show ?case
    by (simp del: One_nat_def)
       (intro keeps_get_access_token_body keeps_grant_token keeps_request_with Suc.IH)
qed

lemma keeps_jsapi_ticket: "keeps_ticket (jsapi_ticket d)"
  unfolding jsapi_ticket_def token_def get_def request_def
  by (intro keeps_bind keeps_get_access_token keeps_request_with)


section \<open>The client is left alone by a request that no server answer invalidates\<close>

lemma never_invalid_server: "server w' = server w \<Longrightarrow> never_invalid w' = never_invalid w"
  by (simp add: never_invalid_def)

lemma never_invalid_tick [simp]: "never_invalid (env (tick s)) = never_invalid (env s)"
  by (simp add: never_invalid_def tick_def)

lemma keeps_clientD:
  "keeps_client m \<Longrightarrow> never_invalid (env s) \<Longrightarrow> m s = (r, s') \<Longrightarrow>
   self s' = self s \<and> server (env s') = server (env s)"
  by (auto simp: keeps_client_def dest: spec [of _ s])

lemma request_attempt_keeps_client:
  assumes "kw_params kwargs = Some ps" and "map_of ps (ustr ''access_token'') = None"
  shows "keeps_client (request_attempt G method url kwargs)"
  unfolding keeps_client_def
proof (intro allI impI)
  fix s :: state
  assume ni: "never_invalid (env s)"
  let ?rq = "\<lparr>rq_method = method, rq_url = url, rq_timeout = 5,
             rq_params = kw_params kwargs, rq_data = kw_data kwargs\<rparr>"
  let ?s1 = "s\<lparr>env := (env s)\<lparr>sent := sent (env s) @ [?rq]\<rparr>\<rparr>"
  let ?A = "request_attempt G method url kwargs"
  have inj: "inject_token (G False) kwargs = ret kwargs"
    using assms by (simp add: inject_token_def)
  have enc: "encode_data kwargs = ret kwargs \<or> encode_data kwargs = raise UnicodeEncodeError"
    by (simp add: encode_data_def split: option.splits json.splits)
  have call: "call_requests method url kwargs = requests_request ?rq \<or>
      call_requests method url kwargs = raise TypeError"
    by (simp add: call_requests_def split: option.splits)
  have cl: "\<And>json. server (env s) (length (sent (env s))) ?rq = Body json \<Longrightarrow>
      snd (classify G json ?s1) = ?s1"
    using ni
    by (auto simp add: never_invalid_def classify_def ret_def raise_def
        split: sum.splits exn.splits)
  have sent: "snd (bind (requests_request ?rq) (classify G) s) = ?s1"
  proof (cases "server (env s) (length (sent (env s))) ?rq")
    case (Body json)
    with cl [OF Body] show ?thesis
      by (simp add: bind_def requests_request_def reply_result_def)
  qed (simp_all add: bind_def requests_request_def reply_result_def)
  from enc call have "snd (?A s) = s \<or> snd (?A s) = ?s1"
    using sent
    by (auto simp add: request_attempt_def send_attempt_def inj raise_apply bind_def ret_def
        raise_def)
  then show "self (snd (?A s)) = self s \<and> server (env (snd (?A s))) = server (env s)"
    by auto
qed

lemma retrying_loop_keeps_client:
  "keeps_client fn \<Longrightarrow> never_invalid (env s) \<Longrightarrow>
   self (snd (fst (retrying_loop m fn n s))) = self s \<and>
   server (env (snd (fst (retrying_loop m fn n s)))) = server (env s)"
proof (induction m fn n s rule: retrying_loop.induct)
  case (1 m fn n s)
  obtain r s1 where f: "fn s = (r, s1)" by (cases "fn s")
  with "1.prems" have t1: "self s1 = self s \<and> server (env s1) = server (env s)"
    by (blast dest: keeps_clientD)
  then have n1: "never_invalid (env (tick s1))"
    using "1.prems"(2) never_invalid_server [of "env s1" "env s"] by simp
  have tk: "self (tick s1) = self s1" "server (env (tick s1)) = server (env s1)"
    by (simp_all add: tick_def)
  show ?case
  proof (cases r)
    case (Inr v)
    with f t1 show ?thesis by (simp add: retrying_returns)
  next
    case (Inl e)
    show ?thesis
    proof (cases "retry_exception e")
      case False
      with f Inl t1 show ?thesis by (simp add: retrying_fatal)
    next
      case True
      show ?thesis
      proof (cases "m \<le> n")
        case True
        with f Inl \<open>retry_exception e\<close> t1 tk show ?thesis by (simp add: retrying_last)
      next
        case False
        with f Inl \<open>retry_exception e\<close> have
          "retrying_loop m fn n s = retrying_loop m fn (n + 1) (tick s1)"
          by (simp add: retrying_again)
        moreover have
          "self (snd (fst (retrying_loop m fn (n + 1) (tick s1)))) = self (tick s1) \<and>
           server (env (snd (fst (retrying_loop m fn (n + 1) (tick s1))))) =
             server (env (tick s1))"
          using "1.IH" "1.prems"(1) n1 f Inl \<open>retry_exception e\<close> False by auto
        ultimately show ?thesis using t1 tk by simp
      qed
    qed
  qed
qed

lemma grant_token_keeps_client: "keeps_client (grant_token (request_with G))"
  unfolding keeps_client_def
proof (intro allI impI)
  fix s :: state
  assume ni: "never_invalid (env s)"
  let ?ps = "[(ustr ''grant_type'', JStr (ustr ''client_credential'')),
             (ustr ''appid'', appid (self s)),
             (ustr ''secret'', appsecret (self s))]"
  let ?kw = "no_kwargs\<lparr>kw_params := Some ?ps\<rparr>"
  let ?fn = "request_attempt G (ustr ''get'') (ustr ''https://api.weixin.qq.com/cgi-bin/token'')
      ?kw"
  have ne: "ustr ''grant_type'' \<noteq> ustr ''access_token''" "ustr ''appid'' \<noteq> ustr ''access_token''"
    "ustr ''secret'' \<noteq> ustr ''access_token''"
    by code_simp+
  have "keeps_client ?fn"
    by (rule request_attempt_keeps_client [where ps = ?ps]) (simp_all add: ne ne [symmetric])
  with ni have "self (snd (fst (retrying_loop 3 ?fn 1 (tick s)))) = self (tick s) \<and>
      server (env (snd (fst (retrying_loop 3 ?fn 1 (tick s))))) = server (env (tick s))"
    by (intro retrying_loop_keeps_client) simp_all
  then show "self (snd (grant_token (request_with G) s)) = self s \<and>
      server (env (snd (grant_token (request_with G) s))) = server (env s)"
    by (simp add: grant_token_def bind_def get_self_def request_with_def retry_def tick_def)
qed

lemma failed_token_fetch:
  assumes "never_invalid (env s)" and "grant_token (request d) s = (r, s')"
  shows "self s' = self s"
  using keeps_clientD [OF grant_token_keeps_client assms(1)] assms(2)
  by (simp add: request_def)

section \<open>The cache when a fetch fails\<close>

lemma get_jsapi_ticket_fetch:
  "force \<or> \<not> truthy (priv_jsapi_ticket (self s)) \<Longrightarrow>
   get_jsapi_ticket d force s = bind (jsapi_ticket d) store_ticket s"
  by (auto simp add: get_jsapi_ticket_def bind_def get_self_def ret_def)

lemma get_jsapi_ticket_stale:
  "truthy (priv_jsapi_ticket (self s)) \<Longrightarrow> jsapi_ticket_expires_at (self s) = Some x \<Longrightarrow>
   py_sub_gt x (now s) 60 = Inr False \<Longrightarrow>
   get_jsapi_ticket d False s = bind (jsapi_ticket d) store_ticket (tick s)"
  by (simp add: get_jsapi_ticket_def bind_def get_self_def time_time_def ret_def tick_def)

lemma store_ticket_stores:
  "getitem json (ustr ''ticket'') = Inr tk \<Longrightarrow>
   getitem json (ustr ''expires_in'') = Inr (JInt ttl) \<Longrightarrow>
   store_ticket json s =
     (Inr (priv_token (self s)), (tick s)\<lparr>self := (self s)\<lparr>priv_jsapi_ticket := tk,
        jsapi_ticket_expires_at := Some (py_int (now s) + ttl)\<rparr>\<rparr>)"
  by (simp add: store_ticket_def bind_def get_self_def set_self_def time_time_def ret_def
      tick_def now_def)

lemma failed_ticket_fetch:
  assumes "jsapi_ticket d s = (Inl e, s')"
  shows "priv_jsapi_ticket (self s') = priv_jsapi_ticket (self s) \<and>
         jsapi_ticket_expires_at (self s') = jsapi_ticket_expires_at (self s)"
  using keeps_ticketD [OF keeps_jsapi_ticket assms] by (simp add: ticket_of_def)

text \<open>
  C9, as stated, fails. With a server that answers \<open>invalid credential\<close> to every call
  with an even number and a new token to the others, the fetch of a forced
  \<open>get_access_token\<close> raises \<open>AccessTokenInvalid\<close> and so does the call, yet the cache
  holds the new token and a new expiry afterwards: each attempt of the fetch ran a
  forced refresh of its own, which succeeded. With a server that sends a token without
  \<open>expires_in\<close>, the call raises \<open>KeyError\<close> after it has stored the token, and the
  expiry is the old one.
\<close>

theorem cache_counterexample:
  "fst (grant_token (request 1) alternating_state) =
     Inl (AccessTokenInvalid (JInt 40001) (JStr (ustr ''invalid credential''))) \<and>
   fst (get_access_token 2 True alternating_state) =
     Inl (AccessTokenInvalid (JInt 40001) (JStr (ustr ''invalid credential''))) \<and>
   priv_token (self alternating_state) = JStr (ustr ''TOKEN'') \<and>
   token_expires_at (self alternating_state) = Some 2000 \<and>
   priv_token (self (snd (get_access_token 2 True alternating_state))) = JStr (ustr ''NEW'') \<and>
   token_expires_at (self (snd (get_access_token 2 True alternating_state))) = Some 8200 \<and>
   fst (get_access_token 1 True partial_state) = Inl (KeyError (ustr ''expires_in'')) \<and>
   priv_token (self (snd (get_access_token 1 True partial_state))) = JStr (ustr ''NEW'') \<and>
   token_expires_at (self (snd (get_access_token 1 True partial_state))) = Some 2000"
  by code_simp


text \<open>
  C9, amended. Whenever the fetch of \<open>get_access_token\<close> or of \<open>get_jsapi_ticket\<close> raises,
  the call raises the same exception and assigns nothing: the state it leaves is the
  state the fetch left. This holds for the fetch of a forced call, of a call with
  nothing cached and of a call whose cached value is stale. A failed fetch of the token
  leaves the client, and with it the cached token and its expiry, as it was before the
  call, when the server answers no call with a body that is classified as
  \<open>AccessTokenInvalid\<close>. A failed fetch of the ticket leaves the cached ticket and its
  expiry as they were, whatever the server answers. When the fetch returns a body with
  the value and an integer \<open>expires_in\<close>, the value and the expiry are both replaced, by
  the fetched value and by \<open>int(time.time()) + expires_in\<close>.
\<close>

theorem cache_update_on_fetch:
  "((force \<or> \<not> truthy (priv_token (self s))) \<and> grant_token (request d) s = (Inl e, s') \<longrightarrow>
      get_access_token (Suc d) force s = (Inl e, s') \<and>
      (never_invalid (env s) \<longrightarrow> self s' = self s)) \<and>
   (\<not> force \<and> truthy (priv_token (self s)) \<and> token_expires_at (self s) = Some x \<and>
    py_sub_gt x (now s) 60 = Inr False \<and> grant_token (request d) (tick s) = (Inl e, s') \<longrightarrow>
      get_access_token (Suc d) force s = (Inl e, s') \<and>
      (never_invalid (env s) \<longrightarrow> self s' = self s)) \<and>
   ((force \<or> \<not> truthy (priv_jsapi_ticket (self s))) \<and> jsapi_ticket d s = (Inl e, s') \<longrightarrow>
      get_jsapi_ticket d force s = (Inl e, s') \<and>
      priv_jsapi_ticket (self s') = priv_jsapi_ticket (self s) \<and>
      jsapi_ticket_expires_at (self s') = jsapi_ticket_expires_at (self s)) \<and>
   (\<not> force \<and> truthy (priv_jsapi_ticket (self s)) \<and>
    jsapi_ticket_expires_at (self s) = Some x \<and>
    py_sub_gt x (now s) 60 = Inr False \<and> jsapi_ticket d (tick s) = (Inl e, s') \<longrightarrow>
      get_jsapi_ticket d force s = (Inl e, s') \<and>
      priv_jsapi_ticket (self s') = priv_jsapi_ticket (self s) \<and>
      jsapi_ticket_expires_at (self s') = jsapi_ticket_expires_at (self s)) \<and>
   (grant_token (request d) s = (Inr json, s1) \<and>
    getitem json (ustr ''access_token'') = Inr tok \<and>
    getitem json (ustr ''expires_in'') = Inr (JInt ttl) \<longrightarrow>
      snd (get_access_token (Suc d) True s) =
        (tick s1)\<lparr>self := (self s1)\<lparr>priv_token := tok,
           token_expires_at := Some (py_int (now s1) + ttl)\<rparr>\<rparr>) \<and>
   (jsapi_ticket d s = (Inr json, s1) \<and>
    getitem json (ustr ''ticket'') = Inr tk \<and>
    getitem json (ustr ''expires_in'') = Inr (JInt ttl) \<longrightarrow>
      snd (get_jsapi_ticket d True s) =
        (tick s1)\<lparr>self := (self s1)\<lparr>priv_jsapi_ticket := tk,
           jsapi_ticket_expires_at := Some (py_int (now s1) + ttl)\<rparr>\<rparr>)"
proof (intro conjI impI)
  assume a: "(force \<or> \<not> truthy (priv_token (self s))) \<and>
    grant_token (request d) s = (Inl e, s')"
  then show "get_access_token (Suc d) force s = (Inl e, s')"
    by (simp add: get_access_token_body_fetch request_def bind_Inl)
  assume "never_invalid (env s)"
  with a show "self s' = self s"
    using failed_token_fetch by blast
next
  assume a: "\<not> force \<and> truthy (priv_token (self s)) \<and> token_expires_at (self s) = Some x \<and>
    py_sub_gt x (now s) 60 = Inr False \<and> grant_token (request d) (tick s) = (Inl e, s')"
  then show "get_access_token (Suc d) force s = (Inl e, s')"
    by (simp add: get_access_token_body_stale request_def bind_Inl)
  assume "never_invalid (env s)"
  then have "never_invalid (env (tick s))"
    by simp
  with a have "self s' = self (tick s)"
    using failed_token_fetch by blast
  then show "self s' = self s"
    by (simp add: tick_def)
next
  assume a: "(force \<or> \<not> truthy (priv_jsapi_ticket (self s))) \<and> jsapi_ticket d s = (Inl e, s')"
  then show "get_jsapi_ticket d force s = (Inl e, s')"
    by (simp add: get_jsapi_ticket_fetch bind_Inl)
  from a show "priv_jsapi_ticket (self s') = priv_jsapi_ticket (self s)"
    using failed_ticket_fetch by blast
  from a show "jsapi_ticket_expires_at (self s') = jsapi_ticket_expires_at (self s)"
    using failed_ticket_fetch by blast
next
  assume a: "\<not> force \<and> truthy (priv_jsapi_ticket (self s)) \<and>
    jsapi_ticket_expires_at (self s) = Some x \<and>
    py_sub_gt x (now s) 60 = Inr False \<and> jsapi_ticket d (tick s) = (Inl e, s')"
  then show "get_jsapi_ticket d force s = (Inl e, s')"
    by (simp add: get_jsapi_ticket_stale bind_Inl)
  from a have "priv_jsapi_ticket (self s') = priv_jsapi_ticket (self (tick s)) \<and>
      jsapi_ticket_expires_at (self s') = jsapi_ticket_expires_at (self (tick s))"
    using failed_ticket_fetch by blast
  then show "priv_jsapi_ticket (self s') = priv_jsapi_ticket (self s)"
    and "jsapi_ticket_expires_at (self s') = jsapi_ticket_expires_at (self s)"
    by (simp_all add: tick_def)
next
  assume "grant_token (request d) s = (Inr json, s1) \<and>
    getitem json (ustr ''access_token'') = Inr tok \<and>
    getitem json (ustr ''expires_in'') = Inr (JInt ttl)"
  then show "snd (get_access_token (Suc d) True s) =
        (tick s1)\<lparr>self := (self s1)\<lparr>priv_token := tok,
           token_expires_at := Some (py_int (now s1) + ttl)\<rparr>\<rparr>"
    by (simp add: get_access_token_body_fetch request_def bind_Inr store_token_stores)
next
  assume "jsapi_ticket d s = (Inr json, s1) \<and>
    getitem json (ustr ''ticket'') = Inr tk \<and>
    getitem json (ustr ''expires_in'') = Inr (JInt ttl)"
  then show "snd (get_jsapi_ticket d True s) =
        (tick s1)\<lparr>self := (self s1)\<lparr>priv_jsapi_ticket := tk,
           jsapi_ticket_expires_at := Some (py_int (now s1) + ttl)\<rparr>\<rparr>"
    by (simp add: get_jsapi_ticket_fetch bind_Inr store_ticket_stores)
qed

theorem cache_update_on_fetch_witness:
  "get_access_token (Suc 0) True timeout_state =
     (Inl ReadTimeout, snd (grant_token (request 0) timeout_state)) \<and>
   priv_token (self (snd (get_access_token (Suc 0) True timeout_state))) =
     JStr (ustr ''TOKEN'') \<and>
   token_expires_at (self (snd (get_access_token (Suc 0) True timeout_state))) = Some 2000 \<and>
   get_access_token (Suc 0) False stale_timeout_state =
     (Inl ReadTimeout, snd (grant_token (request 0) (tick stale_timeout_state))) \<and>
   priv_token (self (snd (get_access_token (Suc 0) False stale_timeout_state))) =
     JStr (ustr ''TOKEN'') \<and>
   token_expires_at (self (snd (get_access_token (Suc 0) False stale_timeout_state))) =
     Some 1030 \<and>
   fst (get_jsapi_ticket (Suc 0) True timeout_state) = Inl ReadTimeout \<and>
   priv_jsapi_ticket (self (snd (get_jsapi_ticket (Suc 0) True timeout_state))) = JNull \<and>
   jsapi_ticket_expires_at (self (snd (get_jsapi_ticket (Suc 0) True timeout_state))) =
     None \<and>
   priv_token (self (snd (get_access_token (Suc 0) True (expiring_state 2000)))) =
     JStr (ustr ''NEW'') \<and>
   token_expires_at (self (snd (get_access_token (Suc 0) True (expiring_state 2000)))) =
     Some 8200 \<and>
   priv_jsapi_ticket (self (snd (get_jsapi_ticket (Suc 0) True ticket_state))) =
     JStr (ustr ''TICKET'') \<and>
   jsapi_ticket_expires_at (self (snd (get_jsapi_ticket (Suc 0) True ticket_state))) =
     Some 8200"
proof -
  let ?g = "grant_token (request 0) timeout_state"
  let ?h = "grant_token (request 0) (tick stale_timeout_state)"
  let ?j = "jsapi_ticket (Suc 0) timeout_state"
  let ?gs = "grant_token (request 0) (expiring_state 2000)"
  let ?js = "jsapi_ticket (Suc 0) ticket_state"
  have "fst ?g = Inl ReadTimeout"
    by code_simp
  then have g: "?g = (Inl ReadTimeout, snd ?g)"
    by (simp add: prod_eq_iff)
  have "fst ?h = Inl ReadTimeout"
    by code_simp
  then have h: "?h = (Inl ReadTimeout, snd ?h)"
    by (simp add: prod_eq_iff)
  have "fst ?j = Inl ReadTimeout"
    by code_simp
  then have j: "?j = (Inl ReadTimeout, snd ?j)"
    by (simp add: prod_eq_iff)
  have "fst ?gs = Inr token_body"
    by code_simp
  then have gs: "?gs = (Inr token_body, snd ?gs)"
    by (simp add: prod_eq_iff)
  have "fst ?js = Inr ticket_body"
    by code_simp
  then have js: "?js = (Inr ticket_body, snd ?js)"
    by (simp add: prod_eq_iff)
  have gi: "getitem token_body (ustr ''access_token'') = Inr (JStr (ustr ''NEW''))"
    "getitem token_body (ustr ''expires_in'') = Inr (JInt 7200)"
    "getitem ticket_body (ustr ''ticket'') = Inr (JStr (ustr ''TICKET''))"
    "getitem ticket_body (ustr ''expires_in'') = Inr (JInt 7200)"
    by code_simp+
  have nw: "py_int (now (snd ?gs)) = 1000" "py_int (now (snd ?js)) = 1000"
    by code_simp+
  have ni: "never_invalid (env timeout_state)" "never_invalid (env stale_timeout_state)"
    by (simp_all add: never_invalid_def timeout_state_def stale_timeout_state_def world_of_def)
  have tr: "truthy (priv_token (self stale_timeout_state))"
    "token_expires_at (self stale_timeout_state) = Some 1030"
    by (simp_all add: stale_timeout_state_def cached_client_def ustr_def)
  have stale: "py_sub_gt 1030 (now stale_timeout_state) 60 = Inr False"
    by code_simp
  from g ni cache_update_on_fetch [where force = True and s = timeout_state and d = 0
      and e = ReadTimeout and s' = "snd ?g"]
  have r1: "get_access_token (Suc 0) True timeout_state = (Inl ReadTimeout, snd ?g) \<and>
      self (snd ?g) = self timeout_state"
    by blast
  from h ni tr stale
    cache_update_on_fetch [where force = False and s = stale_timeout_state and d = 0
      and e = ReadTimeout and s' = "snd ?h" and x = 1030]
  have r5: "get_access_token (Suc 0) False stale_timeout_state = (Inl ReadTimeout, snd ?h) \<and>
      self (snd ?h) = self stale_timeout_state"
    by blast
  from j cache_update_on_fetch [where force = True and s = timeout_state and d = "Suc 0"
      and e = ReadTimeout and s' = "snd ?j"]
  have r2: "get_jsapi_ticket (Suc 0) True timeout_state = (Inl ReadTimeout, snd ?j) \<and>
      priv_jsapi_ticket (self (snd ?j)) = priv_jsapi_ticket (self timeout_state) \<and>
      jsapi_ticket_expires_at (self (snd ?j)) = jsapi_ticket_expires_at (self timeout_state)"
    by blast
  from gs gi cache_update_on_fetch [where s = "expiring_state 2000" and d = 0
      and json = token_body and ?s1.0 = "snd ?gs" and tok = "JStr (ustr ''NEW'')" and ttl = 7200]
  have r3: "snd (get_access_token (Suc 0) True (expiring_state 2000)) =
        (tick (snd ?gs))\<lparr>self := (self (snd ?gs))\<lparr>priv_token := JStr (ustr ''NEW''),
           token_expires_at := Some (py_int (now (snd ?gs)) + 7200)\<rparr>\<rparr>"
    by blast
  from js gi cache_update_on_fetch [where s = ticket_state and d = "Suc 0"
      and json = ticket_body and ?s1.0 = "snd ?js" and tk = "JStr (ustr ''TICKET'')" and ttl = 7200]
  have r4: "snd (get_jsapi_ticket (Suc 0) True ticket_state) =
        (tick (snd ?js))\<lparr>self := (self (snd ?js))\<lparr>priv_jsapi_ticket := JStr (ustr ''TICKET''),
           jsapi_ticket_expires_at := Some (py_int (now (snd ?js)) + 7200)\<rparr>\<rparr>"
    by blast
  show ?thesis
    unfolding r3 r4
    using r1 r2 r5 nw
    by (simp add: timeout_state_def stale_timeout_state_def cached_client_def
        del: get_access_token.simps)
qed

section \<open>Invalidation and refresh\<close>

lemma classify_invalid:
  "check_error json = Inl (AccessTokenInvalid c m) \<Longrightarrow>
   classify G json = bind (G True) (\<lambda>t. raise (AccessTokenInvalid c m))"
  by (simp add: classify_def)

lemma request_attempt_invalid:
  assumes "send_attempt (G False) method url kwargs s = (Inr json, s1)"
    and "check_error json = Inl (AccessTokenInvalid c m)"
  shows "request_attempt G method url kwargs s =
         bind (G True) (\<lambda>t. raise (AccessTokenInvalid c m)) s1"
  using assms by (simp add: request_attempt_def bind_Inr classify_invalid)

text \<open>
  C5, as stated, fails. The cached token is \<open>TOKEN\<close> and fresh. The first attempt is
  answered with \<open>invalid credential\<close>; the three attempts of the forced refresh time
  out, so that the refresh raises \<open>ReadTimeout\<close>, which is retryable; the second attempt
  is sent with \<open>TOKEN\<close> again, the credential of the first attempt, and nothing was
  fetched in between.
\<close>

theorem refresh_counterexample:
  "fst (request 2 (ustr ''get'') api_url no_kwargs refresh_timeout_state) = Inr ok_body \<and>
   map (\<lambda>rq. (rq_url rq = api_url, map_option (\<lambda>ps. map_of ps (ustr ''access_token'')) (rq_params rq)))
     (sent (env (snd (request 2 (ustr ''get'') api_url no_kwargs refresh_timeout_state)))) =
     [(True, Some (Some (JStr (ustr ''TOKEN'')))), (False, Some None), (False, Some None),
      (False, Some None), (True, Some (Some (JStr (ustr ''TOKEN''))))] \<and>
   server (env refresh_timeout_state) 0
     (hd (sent (env (snd (request 2 (ustr ''get'') api_url no_kwargs refresh_timeout_state))))) =
     Body invalid_body"
  by code_simp


text \<open>
  C5, amended. Whenever the body of an attempt is classified as \<open>AccessTokenInvalid\<close>,
  the attempt runs the fetch of a forced \<open>get_access_token\<close> in the state the response
  left, whatever the cache holds. If the fetch raises, the attempt raises that
  exception. If the fetch returns a body with \<open>access_token\<close> and an integer
  \<open>expires_in\<close>, the attempt raises \<open>AccessTokenInvalid\<close> and leaves the fetched token and
  its expiry in the cache, and if the attempt is not the third, the next attempt starts
  from this state \<open>s3\<close> after one reading of the clock. The token that the next attempt
  reads from the cache is then settled by the fetched token and by the test of the
  margin on the stored expiry: a fetched token that is false as a condition is fetched
  again; a token that passes the test is the one that is read; a token that fails it is
  fetched again; and when the test raises, the reading raises the same exception.
\<close>

theorem invalidation_forces_refresh:
  "send_attempt (get_access_token (Suc d) False) method url kwargs s = (Inr json, s1) \<and>
   check_error json = Inl (AccessTokenInvalid c m) \<longrightarrow>
     (grant_token (request d) s1 = (Inl x, s2) \<longrightarrow>
        request_attempt (get_access_token (Suc d)) method url kwargs s = (Inl x, s2)) \<and>
     (grant_token (request d) s1 = (Inr json', s2) \<and>
      getitem json' (ustr ''access_token'') = Inr tok \<and>
      getitem json' (ustr ''expires_in'') = Inr (JInt ttl) \<and>
      s3 = (tick s2)\<lparr>self := (self s2)\<lparr>priv_token := tok,
              token_expires_at := Some (py_int (now s2) + ttl)\<rparr>\<rparr> \<longrightarrow>
        request_attempt (get_access_token (Suc d)) method url kwargs s =
          (Inl (AccessTokenInvalid c m), s3) \<and>
        (n < 3 \<longrightarrow>
           retrying_loop 3 (request_attempt (get_access_token (Suc d)) method url kwargs) n s =
           retrying_loop 3 (request_attempt (get_access_token (Suc d)) method url kwargs) (n + 1)
             (tick s3)) \<and>
        (\<not> truthy tok \<longrightarrow>
           get_access_token (Suc d) False (tick s3) =
             bind (grant_token (request d)) store_token (tick s3)) \<and>
        (truthy tok \<and> py_sub_gt (py_int (now s2) + ttl) (now (tick s3)) 60 = Inr True \<longrightarrow>
           get_access_token (Suc d) False (tick s3) = (Inr tok, tick (tick s3))) \<and>
        (truthy tok \<and> py_sub_gt (py_int (now s2) + ttl) (now (tick s3)) 60 = Inr False \<longrightarrow>
           get_access_token (Suc d) False (tick s3) =
             bind (grant_token (request d)) store_token (tick (tick s3))) \<and>
        (truthy tok \<and> py_sub_gt (py_int (now s2) + ttl) (now (tick s3)) 60 = Inl x \<longrightarrow>
           get_access_token (Suc d) False (tick s3) = (Inl x, tick (tick s3))))"
proof (intro impI conjI)
  let ?G = "get_access_token (Suc d)"
  let ?s3 = "(tick s2)\<lparr>self := (self s2)\<lparr>priv_token := tok,
              token_expires_at := Some (py_int (now s2) + ttl)\<rparr>\<rparr>"
  assume h: "send_attempt (?G False) method url kwargs s = (Inr json, s1) \<and>
   check_error json = Inl (AccessTokenInvalid c m)"
  then have att: "request_attempt ?G method url kwargs s =
      bind (?G True) (\<lambda>t. raise (AccessTokenInvalid c m)) s1"
    using request_attempt_invalid by blast
  have forced: "?G True s1 = bind (grant_token (request d)) store_token s1"
    by (simp add: get_access_token_body_fetch request_def)
  {
    assume "grant_token (request d) s1 = (Inl x, s2)"
    then have "?G True s1 = (Inl x, s2)"
      by (simp add: forced bind_Inl del: get_access_token.simps)
    then show "request_attempt ?G method url kwargs s = (Inl x, s2)"
      by (simp add: att bind_Inl del: get_access_token.simps)
  }
  {
    assume ok: "grant_token (request d) s1 = (Inr json', s2) \<and>
      getitem json' (ustr ''access_token'') = Inr tok \<and>
      getitem json' (ustr ''expires_in'') = Inr (JInt ttl) \<and> s3 = ?s3"
    then have s3: "priv_token (self (tick s3)) = tok"
      "token_expires_at (self (tick s3)) = Some (py_int (now s2) + ttl)"
      by (simp_all add: tick_def)
    from ok have "?G True s1 = (Inr tok, s3)"
      by (simp add: forced bind_Inr store_token_stores del: get_access_token.simps)
    then show res: "request_attempt ?G method url kwargs s = (Inl (AccessTokenInvalid c m), s3)"
      by (simp add: att bind_Inr raise_apply del: get_access_token.simps)
    {
      assume "n < 3"
      with res show "retrying_loop 3 (request_attempt ?G method url kwargs) n s =
           retrying_loop 3 (request_attempt ?G method url kwargs) (n + 1) (tick s3)"
        by (simp add: retrying_again del: get_access_token.simps)
    }
    {
      assume "\<not> truthy tok"
      with s3 show "?G False (tick s3) = bind (grant_token (request d)) store_token (tick s3)"
        by (simp add: get_access_token_body_fetch request_def)
    }
    {
      assume "truthy tok \<and> py_sub_gt (py_int (now s2) + ttl) (now (tick s3)) 60 = Inr True"
      with s3 show "?G False (tick s3) = (Inr tok, tick (tick s3))"
        using get_access_token_body_cached [of "tick s3" "py_int (now s2) + ttl"
            "grant_token (request_with (get_access_token d))"]
        by simp
    }
    {
      assume "truthy tok \<and> py_sub_gt (py_int (now s2) + ttl) (now (tick s3)) 60 = Inr False"
      with s3 show "?G False (tick s3) =
          bind (grant_token (request d)) store_token (tick (tick s3))"
        using get_access_token_body_stale [of "tick s3" "py_int (now s2) + ttl"
            "grant_token (request_with (get_access_token d))"]
        by (simp add: request_def)
    }
    {
      assume "truthy tok \<and> py_sub_gt (py_int (now s2) + ttl) (now (tick s3)) 60 = Inl x"
      with s3 show "?G False (tick s3) = (Inl x, tick (tick s3))"
        using get_access_token_body_raises [of "tick s3" "py_int (now s2) + ttl" x
            "grant_token (request_with (get_access_token d))"]
        by simp
    }
  }
qed

theorem invalidation_forces_refresh_witness:
  "fst (request_attempt (get_access_token (Suc 0)) (ustr ''get'') api_url no_kwargs
         (tick refresh_state)) =
     Inl (AccessTokenInvalid (JInt 40001) (JStr (ustr ''invalid credential''))) \<and>
   priv_token (self (snd (request_attempt (get_access_token (Suc 0)) (ustr ''get'') api_url
         no_kwargs (tick refresh_state)))) = JStr (ustr ''NEW'') \<and>
   token_expires_at (self (snd (request_attempt (get_access_token (Suc 0)) (ustr ''get'')
         api_url no_kwargs (tick refresh_state)))) = Some 8200 \<and>
   fst (get_access_token (Suc 0) False
         (tick (snd (request_attempt (get_access_token (Suc 0)) (ustr ''get'') api_url
            no_kwargs (tick refresh_state))))) = Inr (JStr (ustr ''NEW'')) \<and>
   fst (request (Suc 0) (ustr ''get'') api_url no_kwargs refresh_state) = Inr ok_body \<and>
   map (\<lambda>rq. map_option (\<lambda>ps. map_of ps (ustr ''access_token'')) (rq_params rq))
     (sent (env (snd (request (Suc 0) (ustr ''get'') api_url no_kwargs refresh_state)))) =
     [Some (Some (JStr (ustr ''TOKEN''))), Some None, Some (Some (JStr (ustr ''NEW'')))]"
proof -
  let ?G = "get_access_token (Suc 0)"
  let ?s = "tick refresh_state"
  let ?send = "send_attempt (?G False) (ustr ''get'') api_url no_kwargs ?s"
  let ?s1 = "snd ?send"
  let ?grant = "grant_token (request 0) ?s1"
  let ?s2 = "snd ?grant"
  let ?s3 = "(tick ?s2)\<lparr>self := (self ?s2)\<lparr>priv_token := JStr (ustr ''NEW''),
          token_expires_at := Some (py_int (now ?s2) + 7200)\<rparr>\<rparr>"
  have "fst ?send = Inr invalid_body"
    by code_simp
  then have a: "?send = (Inr invalid_body, ?s1)"
    by (simp add: prod_eq_iff)
  have ce: "check_error invalid_body =
      Inl (AccessTokenInvalid (JInt 40001) (JStr (ustr ''invalid credential'')))"
    by code_simp
  have "fst ?grant = Inr token_body"
    by code_simp
  then have g: "?grant = (Inr token_body, ?s2)"
    by (simp add: prod_eq_iff)
  have gi: "getitem token_body (ustr ''access_token'') = Inr (JStr (ustr ''NEW''))"
    "getitem token_body (ustr ''expires_in'') = Inr (JInt 7200)"
    by code_simp+
  have nw: "py_int (now ?s2) = 1000"
    by code_simp
  have e: "py_int (now ?s2) + 7200 = 8200"
    unfolding nw by simp
  have t: "\<And>c. now (tick ((tick ?s2)\<lparr>self := c\<rparr>)) = now (tick (tick ?s2))"
    by (simp add: now_def tick_def)
  have "py_sub_gt 8200 (now (tick (tick ?s2))) 60 = Inr True"
    by code_simp
  then have fresh: "py_sub_gt (py_int (now ?s2) + 7200) (now (tick ?s3)) 60 = Inr True"
    by (simp only: e t)
  have tr: "truthy (JStr (ustr ''NEW''))"
    by (simp add: ustr_def)
  from a ce g gi
    invalidation_forces_refresh [of 0 "ustr ''get''" api_url no_kwargs ?s invalid_body ?s1
      "JInt 40001" "JStr (ustr ''invalid credential'')" _ ?s2 token_body
      "JStr (ustr ''NEW'')" 7200 ?s3]
  have r: "request_attempt ?G (ustr ''get'') api_url no_kwargs ?s =
      (Inl (AccessTokenInvalid (JInt 40001) (JStr (ustr ''invalid credential''))), ?s3)"
    by blast
  from a ce g gi tr fresh
    invalidation_forces_refresh [of 0 "ustr ''get''" api_url no_kwargs ?s invalid_body ?s1
      "JInt 40001" "JStr (ustr ''invalid credential'')" _ ?s2 token_body
      "JStr (ustr ''NEW'')" 7200 ?s3]
  have r': "?G False (tick ?s3) = (Inr (JStr (ustr ''NEW'')), tick (tick ?s3))"
    by blast
  have run: "fst (request (Suc 0) (ustr ''get'') api_url no_kwargs refresh_state) = Inr ok_body \<and>
   map (\<lambda>rq. map_option (\<lambda>ps. map_of ps (ustr ''access_token'')) (rq_params rq))
     (sent (env (snd (request (Suc 0) (ustr ''get'') api_url no_kwargs refresh_state)))) =
     [Some (Some (JStr (ustr ''TOKEN''))), Some None, Some (Some (JStr (ustr ''NEW'')))]"
    by code_simp
  show ?thesis
    unfolding r
    using nw run r'
    by (simp del: get_access_token.simps)
qed

end
